theory Spec2Isabelle
  imports Complex_Main "HOL-Library.Word"
begin

section \<open>JavaScript values used by \<^verbatim>\<open>frontend/src/App.js\<close>\<close>

text \<open>
  A JavaScript string is a sequence of UTF-16 code units. The regular expression of
  \<^verbatim>\<open>parseBatchInput\<close> has no \<^verbatim>\<open>u\<close> flag, so it works on code units, and
  so does \<^verbatim>\<open>String.prototype.trim\<close>.
\<close>

type_synonym jsstring = "16 word list"

text \<open>An ASCII literal of the source, as code units.\<close>

definition js :: "string \<Rightarrow> jsstring" where
  "js s = map of_char s"

definition DQ :: "16 word" where
  "DQ = 0x22"

definition SQ :: "16 word" where
  "SQ = 0x27"

text \<open>
  \<^verbatim>\<open>trim\<close> removes WhiteSpace and LineTerminator code units from both ends:
  TAB, LF, VT, FF, CR, SP, NBSP, U+1680, U+2000 to U+200A, U+2028, U+2029, U+202F,
  U+205F, U+3000 and U+FEFF.
\<close>

definition is_js_space :: "16 word \<Rightarrow> bool" where
  "is_js_space c =
     (c = 0x09 \<or> c = 0x0A \<or> c = 0x0B \<or> c = 0x0C \<or> c = 0x0D \<or> c = 0x20 \<or> c = 0xA0 \<or>
      c = 0x1680 \<or> (0x2000 \<le> c \<and> c \<le> 0x200A) \<or> c = 0x2028 \<or> c = 0x2029 \<or>
      c = 0x202F \<or> c = 0x205F \<or> c = 0x3000 \<or> c = 0xFEFF)"

definition trim :: "jsstring \<Rightarrow> jsstring" where
  "trim s = rev (dropWhile is_js_space (rev (dropWhile is_js_space s)))"

text \<open>A string is truthy when it is not empty.\<close>

definition truthy :: "jsstring \<Rightarrow> bool" where
  "truthy s = (s \<noteq> [])"

text \<open>
  \<^verbatim>\<open>a || b\<close> on values that are a string or \<^verbatim>\<open>undefined\<close> (here \<open>None\<close>):
  \<^verbatim>\<open>a\<close> when it is truthy, otherwise \<^verbatim>\<open>b\<close>. The empty string and
  \<^verbatim>\<open>undefined\<close> are both falsy.
\<close>

definition js_or :: "jsstring option \<Rightarrow> jsstring option \<Rightarrow> jsstring option" where
  "js_or a b = (case a of None \<Rightarrow> b | Some s \<Rightarrow> if truthy s then Some s else b)"

text \<open>
  A non-negative integer in a template literal: its decimal digits. The counter
  \<^verbatim>\<open>currentFileName\<close> starts at 1 and grows by 1 for each match, so it
  stays far below the range where a Number prints in exponent form.
\<close>

definition digit :: "nat \<Rightarrow> 16 word" where
  "digit d = of_nat (48 + d)"

fun number_to_string :: "nat \<Rightarrow> jsstring" where
  "number_to_string n =
     (if n < 10 then [digit n] else number_to_string (n div 10) @ [digit (n mod 10)])"

declare number_to_string.simps [simp del]

section \<open>The regular expression \<^verbatim>\<open>/"([^"]*)"|'([^']*)'/g\<close>\<close>

text \<open>
  The backtracking matcher of the specification of the language, for this pattern.
  \<open>class_star q taken s\<close> is the greedy \<^verbatim>\<open>[^q]*\<close>: it takes code units other than
  \<open>q\<close> as long as it can (a negated class also takes line terminators); \<open>taken\<close> is
  what it took, last first.
\<close>

fun class_star :: "16 word \<Rightarrow> jsstring \<Rightarrow> jsstring \<Rightarrow> jsstring \<times> jsstring" where
  "class_star q taken [] = (taken, [])"
| "class_star q taken (c # cs) =
     (if c \<noteq> q then class_star q (c # taken) cs else (taken, c # cs))"

text \<open>
  The continuation of the star: the closing quote. When it does not match, the star
  gives back the last code unit it took and the quote is tried again, until the star has
  nothing left. The result is the captured group and what follows the match.
\<close>

fun close_quote :: "16 word \<Rightarrow> jsstring \<Rightarrow> jsstring \<Rightarrow> (jsstring \<times> jsstring) option" where
  "close_quote q taken (c # cs) =
     (if c = q then Some (rev taken, cs)
      else (case taken of [] \<Rightarrow> None | t # ts \<Rightarrow> close_quote q ts (t # c # cs)))"
| "close_quote q taken [] =
     (case taken of [] \<Rightarrow> None | t # ts \<Rightarrow> close_quote q ts [t])"

text \<open>One alternative, \<^verbatim>\<open>q([^q]*)q\<close>, matched at the start of \<open>s\<close>.\<close>

definition quoted :: "16 word \<Rightarrow> jsstring \<Rightarrow> (jsstring \<times> jsstring) option" where
  "quoted q s =
     (case s of
        [] \<Rightarrow> None
      | c # cs \<Rightarrow>
          if c = q then (case class_star q [] cs of (taken, rest) \<Rightarrow> close_quote q taken rest)
          else None)"

text \<open>
  The whole pattern at the start of \<open>s\<close>: the double-quoted alternative first, then the
  single-quoted one. The result is group 1, group 2 (\<open>None\<close> is \<^verbatim>\<open>undefined\<close>: the
  group of the alternative that did not take part) and the number of code units matched.
\<close>

definition match_at :: "jsstring \<Rightarrow> (jsstring option \<times> jsstring option \<times> nat) option" where
  "match_at s =
     (case quoted DQ s of
        Some (g, rest) \<Rightarrow> Some (Some g, None, length s - length rest)
      | None \<Rightarrow>
          (case quoted SQ s of
             Some (g, rest) \<Rightarrow> Some (None, Some g, length s - length rest)
           | None \<Rightarrow> None))"

text \<open>The array \<^verbatim>\<open>exec\<close> returns: \<^verbatim>\<open>index\<close>, \<^verbatim>\<open>match[0]\<close>, \<^verbatim>\<open>match[1]\<close>, \<^verbatim>\<open>match[2]\<close>.\<close>

record regmatch =
  m_index :: nat
  m_0 :: jsstring
  m_1 :: "jsstring option"
  m_2 :: "jsstring option"

text \<open>
  \<^verbatim>\<open>regex.exec(input)\<close> of a global regular expression, with \<^verbatim>\<open>lastIndex\<close> passed
  in and returned: beyond the end of the input it fails and resets \<^verbatim>\<open>lastIndex\<close> to 0;
  otherwise it tries the pattern at \<^verbatim>\<open>lastIndex\<close>, then one further on each failure;
  a match sets \<^verbatim>\<open>lastIndex\<close> to its end.
\<close>

function regex_exec :: "jsstring \<Rightarrow> nat \<Rightarrow> regmatch option \<times> nat" where
  "regex_exec input lastIndex =
     (if lastIndex > length input then (None, 0)
      else
        (case match_at (drop lastIndex input) of
           None \<Rightarrow> regex_exec input (lastIndex + 1)
         | Some (g1, g2, n) \<Rightarrow>
             (Some \<lparr>m_index = lastIndex, m_0 = take n (drop lastIndex input),
                     m_1 = g1, m_2 = g2\<rparr>,
              lastIndex + n)))"
  by pat_completeness auto
termination
  by (relation "measure (\<lambda>(input, lastIndex). Suc (length input) - lastIndex)") auto

section \<open>The component state and \<^verbatim>\<open>parseBatchInput\<close>\<close>

text \<open>
  The state variables of \<^verbatim>\<open>App\<close> that the two handlers and the parser read or
  set (\<^verbatim>\<open>useState\<close>). The field \<open>text'\<close> is the variable \<^verbatim>\<open>text\<close>. A speed is the
  number the slider holds, as a real; voices and models are strings.
  \<^verbatim>\<open>singleAudioUrl\<close> is \<^verbatim>\<open>null\<close> (\<open>None\<close>) or an object URL.
\<close>

record app =
  text' :: jsstring
  voice :: jsstring
  speed :: real
  model :: jsstring
  customVoicePrompt :: jsstring
  useCustomVoice :: bool
  singleAudioUrl :: "jsstring option"
  isGenerating :: bool
  batchInputText :: jsstring
  batchCustomVoicePrompt :: jsstring
  useBatchCustomVoice :: bool
  batchVoice :: jsstring
  batchSpeed :: real
  batchModel :: jsstring
  isGeneratingBatch :: bool

text \<open>
  One object of the array \<^verbatim>\<open>texts\<close>. Its \<^verbatim>\<open>text\<close> is a string or
  \<^verbatim>\<open>undefined\<close> (\<open>None\<close>).
\<close>

record item =
  item_text :: "jsstring option"
  item_voice :: jsstring
  item_filename :: jsstring
  item_speed :: real
  item_model :: jsstring
  item_custom_voice_prompt :: jsstring

text \<open>The object pushed for one match, with the counter \<^verbatim>\<open>currentFileName\<close>.\<close>

definition pushed :: "app \<Rightarrow> regmatch \<Rightarrow> nat \<Rightarrow> item" where
  "pushed st m currentFileName =
     \<lparr>item_text = js_or (m_1 m) (m_2 m),
      item_voice = batchVoice st,
      item_filename = js ''speech_'' @ number_to_string currentFileName,
      item_speed = batchSpeed st,
      item_model = batchModel st,
      item_custom_voice_prompt =
        (if useBatchCustomVoice st then batchCustomVoicePrompt st else [])\<rparr>"

subsection \<open>What the matcher computes, and why the loop ends\<close>

text \<open>
  The first \<open>q\<close> of a string: what stands before it and what follows it. The greedy
  star followed by the closing quote finds exactly this, since giving code units back
  never uncovers a quote. So a match has at least two code units, \<^verbatim>\<open>lastIndex\<close> grows
  with every match, and the loop of \<^verbatim>\<open>parseBatchInput\<close> ends on every input.
\<close>

fun find_close :: "16 word \<Rightarrow> jsstring \<Rightarrow> (jsstring \<times> jsstring) option" where
  "find_close q [] = None"
| "find_close q (c # cs) =
     (if c = q then Some ([], cs)
      else (case find_close q cs of None \<Rightarrow> None | Some (b, r) \<Rightarrow> Some (c # b, r)))"

declare close_quote.simps [simp del]

lemma close_quote_Nil:
  "close_quote q [] rest =
     (case rest of [] \<Rightarrow> None | c # cs \<Rightarrow> if c = q then Some ([], cs) else None)"
  by (cases rest) (simp_all add: close_quote.simps)

lemma close_quote_Cons:
  "close_quote q (t # ts) rest =
     (case rest of
        [] \<Rightarrow> close_quote q ts [t]
      | c # cs \<Rightarrow> if c = q then Some (rev (t # ts), cs) else close_quote q ts (t # c # cs))"
  by (cases rest) (simp_all add: close_quote.simps)

lemma close_quote_fails:
  "q \<notin> set taken \<Longrightarrow> rest = [] \<or> hd rest \<noteq> q \<Longrightarrow> close_quote q taken rest = None"
proof (induction taken arbitrary: rest)
  case Nil
  then show ?case by (cases rest) (simp_all add: close_quote_Nil)
next
  case (Cons t ts)
  then have "close_quote q ts (t # rest) = None" by auto
  with Cons.prems show ?case by (cases rest) (auto simp add: close_quote_Cons)
qed

lemma star_then_close:
  "q \<notin> set taken \<Longrightarrow>
   (case class_star q taken s of (taken', rest) \<Rightarrow> close_quote q taken' rest) =
   map_option (\<lambda>(b, r). (rev taken @ b, r)) (find_close q s)"
proof (induction s arbitrary: taken)
  case Nil
  then show ?case by (simp add: close_quote_fails)
next
  case (Cons c cs)
  show ?case
  proof (cases "c = q")
    case True
    then show ?thesis by (simp add: close_quote.simps)
  next
    case False
    with Cons.prems have "q \<notin> set (c # taken)" by auto
    from Cons.IH [OF this] False show ?thesis
      by (cases "find_close q cs") auto
  qed
qed

lemma quoted_find_close:
  "quoted q s = (case s of [] \<Rightarrow> None | c # cs \<Rightarrow> if c = q then find_close q cs else None)"
proof (cases s)
  case Nil
  then show ?thesis by (simp add: quoted_def)
next
  case (Cons c cs)
  have "map_option (\<lambda>(b, r). (rev [] @ b, r)) (find_close q cs) = find_close q cs"
    by (cases "find_close q cs") auto
  with star_then_close [of q "[]" cs] Cons show ?thesis
    by (simp add: quoted_def)
qed

lemma find_close_length:
  "find_close q s = Some (b, r) \<Longrightarrow> length s = Suc (length b + length r)"
  by (induction s arbitrary: b) (auto split: if_splits option.splits)

lemma find_close_append: "find_close q s = Some (b, r) \<Longrightarrow> s = b @ q # r \<and> q \<notin> set b"
  by (induction s arbitrary: b) (auto split: if_splits option.splits)

lemma find_close_None: "find_close q s = None \<longleftrightarrow> q \<notin> set s"
  by (induction s) (auto split: if_splits option.splits)

lemma find_close_Some: "q \<notin> set b \<Longrightarrow> find_close q (b @ q # r) = Some (b, r)"
  by (induction b) auto

lemma DQ_neq_SQ: "DQ \<noteq> SQ"
  by (simp add: DQ_def SQ_def)

lemma match_at_eq:
  "match_at s =
     (case s of
        [] \<Rightarrow> None
      | c # cs \<Rightarrow>
          if c = DQ then
            (case find_close DQ cs of
               None \<Rightarrow> None
             | Some (b, r) \<Rightarrow> Some (Some b, None, length b + 2))
          else if c = SQ then
            (case find_close SQ cs of
               None \<Rightarrow> None
             | Some (b, r) \<Rightarrow> Some (None, Some b, length b + 2))
          else None)"
  using DQ_neq_SQ
  by (auto simp add: match_at_def quoted_find_close split: list.splits option.splits
        dest: find_close_length)

lemma match_at_bounds: "match_at s = Some (g1, g2, n) \<Longrightarrow> 2 \<le> n \<and> n \<le> length s"
  by (auto simp add: match_at_eq split: list.splits option.splits if_splits
        dest: find_close_length)

text \<open>A match is never empty, so \<^verbatim>\<open>lastIndex\<close> grows with each match.\<close>

lemma regex_exec_advances:
  "regex_exec input lastIndex = (Some m, lastIndex') \<Longrightarrow>
   lastIndex < lastIndex' \<and> lastIndex' \<le> length input"
proof (induction input lastIndex rule: regex_exec.induct)
  case (1 input lastIndex)
  show ?case
  proof (cases "lastIndex > length input")
    case True
    with "1.prems" show ?thesis by simp
  next
    case False
    show ?thesis
    proof (cases "match_at (drop lastIndex input)")
      case None
      with False "1.prems" have "regex_exec input (lastIndex + 1) = (Some m, lastIndex')"
        by simp
      from "1.IH" [OF False None this] show ?thesis by simp
    next
      case (Some a)
      obtain g1 g2 n where a: "a = (g1, g2, n)" by (cases a)
      from match_at_bounds [of "drop lastIndex input" g1 g2 n] Some a
      have "2 \<le> n" "n \<le> length input - lastIndex" by simp_all
      with False Some a "1.prems" show ?thesis by auto
    qed
  qed
qed

subsection \<open>The loop and the function\<close>

text \<open>
  \<^verbatim>\<open>while ((match = regex.exec(input)) !== null) { texts.push({...}); currentFileName++; }\<close>
  with the loop's variables as arguments: \<^verbatim>\<open>lastIndex\<close> of the regular expression,
  the counter and the array.
\<close>

function parse_loop :: "app \<Rightarrow> jsstring \<Rightarrow> nat \<Rightarrow> nat \<Rightarrow> item list \<Rightarrow> item list" where
  "parse_loop st input lastIndex currentFileName texts =
     (case regex_exec input lastIndex of
        (None, lastIndex') \<Rightarrow> texts
      | (Some m, lastIndex') \<Rightarrow>
          parse_loop st input lastIndex' (currentFileName + 1)
            (texts @ [pushed st m currentFileName]))"
  by pat_completeness auto
termination
proof (relation "measure (\<lambda>(st, input, lastIndex, currentFileName, texts).
    Suc (length input) - lastIndex)", goal_cases)
  case 1
  show ?case by simp
next
  case (2 st input lastIndex currentFileName texts x lastIndex' m)
  then have "regex_exec input lastIndex = (Some m, lastIndex')" by simp
  from regex_exec_advances [OF this] show ?case by auto
qed

text \<open>
  \<^verbatim>\<open>parseBatchInput(input)\<close>: nothing for an input that is empty after trimming;
  otherwise the loop, from \<^verbatim>\<open>lastIndex\<close> 0 (the regular expression is created by the
  call), the counter 1 and the empty array. The batch settings come from the state.
\<close>

definition parseBatchInput :: "app \<Rightarrow> jsstring \<Rightarrow> item list" where
  "parseBatchInput st input =
     (if \<not> truthy (trim input) then [] else parse_loop st input 0 1 [])"

section \<open>The handlers \<^verbatim>\<open>handleSingleGenerate\<close> and \<^verbatim>\<open>handleBatchGenerate\<close>\<close>

text \<open>
  The body of the request to \<^verbatim>\<open>/tts/single\<close>. A key the object does not have is
  \<open>None\<close>.
\<close>

record single_payload =
  payload_text :: jsstring
  payload_speed :: real
  payload_model :: jsstring
  payload_voice :: "jsstring option"
  payload_custom_voice_prompt :: "jsstring option"

text \<open>The body of the request to \<^verbatim>\<open>/tts/batch\<close>.\<close>

record batch_payload =
  payload_texts :: "item list"
  payload_use_custom_prompt :: bool

datatype body = Single single_payload | Batch batch_payload

text \<open>A \<^verbatim>\<open>Blob\<close>: its bytes and its type. A thrown value: an error with its message.\<close>

datatype blob = Blob "8 word list" jsstring

datatype error = Error jsstring

text \<open>
  What a handler does to the world, in the order it does it: the state setters and the
  calls of the browser and of the libraries.
\<close>

datatype effect =
    Alert jsstring
  | ConsoleError jsstring error
  | SetIsGenerating bool
  | SetIsGeneratingBatch bool
  | SetSingleAudioUrl jsstring
  | AxiosPost jsstring body
  | CreateObjectURL blob
  | RevokeObjectURL jsstring
  | AudioLoad
  | AudioPlay
  | SaveAs blob jsstring

text \<open>
  What the world answers: the value of \<^verbatim>\<open>REACT_APP_BACKEND_URL\<close>; whether the promise of
  \<^verbatim>\<open>axios.post\<close> is rejected (with an error) or fulfilled (with \<^verbatim>\<open>response.data\<close>);
  the URL that \<^verbatim>\<open>URL.createObjectURL\<close> returns; and whether \<^verbatim>\<open>audioRef.current\<close>
  holds the audio element when the handler reads it (the element is rendered only on the
  single tab and only while \<^verbatim>\<open>singleAudioUrl\<close> is set).
\<close>

record env =
  BACKEND_URL :: jsstring
  axios_post :: "jsstring \<Rightarrow> body \<Rightarrow> error + 8 word list"
  createObjectURL :: "blob \<Rightarrow> jsstring"
  audioRef_current :: bool

definition API :: "env \<Rightarrow> jsstring" where
  "API e = BACKEND_URL e @ js ''/api''"

text \<open>
  \<^verbatim>\<open>try { ... } catch (error) { ... } finally { ... }\<close> where neither the handler nor
  the final block throws: the effects of the body up to its end or its throw, then those of
  the handler if it threw, then those of the final block in both cases.
\<close>

definition try_catch_finally ::
  "(error + unit) \<times> effect list \<Rightarrow> (error \<Rightarrow> effect list) \<Rightarrow> effect list \<Rightarrow> effect list" where
  "try_catch_finally tried handler final =
     (case tried of
        (Inl err, es) \<Rightarrow> es @ handler err @ final
      | (Inr u, es) \<Rightarrow> es @ final)"

text \<open>The payload of a single request (lines 62 to 74).\<close>

definition build_payload :: "app \<Rightarrow> single_payload" where
  "build_payload st =
     (let payload = \<lparr>payload_text = text' st, payload_speed = speed st,
                     payload_model = model st, payload_voice = None,
                     payload_custom_voice_prompt = None\<rparr>
      in if useCustomVoice st \<and> truthy (trim (customVoicePrompt st))
         then payload\<lparr>payload_custom_voice_prompt := Some (customVoicePrompt st)\<rparr>
         else payload\<lparr>payload_voice := Some (voice st)\<rparr>)"

text \<open>The \<^verbatim>\<open>try\<close> block of \<^verbatim>\<open>handleSingleGenerate\<close>: \<^verbatim>\<open>await\<close> throws when the promise is rejected.\<close>

definition single_try :: "env \<Rightarrow> app \<Rightarrow> (error + unit) \<times> effect list" where
  "single_try e st =
     (let payload = build_payload st;
          request = AxiosPost (API e @ js ''/tts/single'') (Single payload)
      in case axios_post e (API e @ js ''/tts/single'') (Single payload) of
           Inl err \<Rightarrow> (Inl err, [request])
         | Inr response_data \<Rightarrow>
             (let audioBlob = Blob response_data (js ''audio/mpeg'');
                  url = createObjectURL e audioBlob
              in (Inr (),
                  [request, CreateObjectURL audioBlob]
                  @ (case singleAudioUrl st of
                       None \<Rightarrow> []
                     | Some old \<Rightarrow> if truthy old then [RevokeObjectURL old] else [])
                  @ [SetSingleAudioUrl url]
                  @ (if audioRef_current e then [AudioLoad, AudioPlay] else []))))"

definition handleSingleGenerate :: "env \<Rightarrow> app \<Rightarrow> effect list" where
  "handleSingleGenerate e st =
     (if \<not> truthy (trim (text' st))
      then [Alert (js ''Please enter some text to convert to speech'')]
      else
        [SetIsGenerating True]
        @ try_catch_finally (single_try e st)
            (\<lambda>err. [ConsoleError (js ''Error generating speech:'') err,
                    Alert (js ''Error generating speech. Please try again.'')])
            [SetIsGenerating False])"

text \<open>The \<^verbatim>\<open>try\<close> block of \<^verbatim>\<open>handleBatchGenerate\<close>.\<close>

definition batch_try :: "env \<Rightarrow> app \<Rightarrow> item list \<Rightarrow> (error + unit) \<times> effect list" where
  "batch_try e st parsedTexts =
     (let data = Batch \<lparr>payload_texts = parsedTexts,
                        payload_use_custom_prompt = useBatchCustomVoice st\<rparr>;
          request = AxiosPost (API e @ js ''/tts/batch'') data
      in case axios_post e (API e @ js ''/tts/batch'') data of
           Inl err \<Rightarrow> (Inl err, [request])
         | Inr response_data \<Rightarrow>
             (Inr (),
              [request,
               SaveAs (Blob response_data (js ''application/zip'')) (js ''speech_files.zip'')]))"

definition handleBatchGenerate :: "env \<Rightarrow> app \<Rightarrow> effect list" where
  "handleBatchGenerate e st =
     (let parsedTexts = parseBatchInput st (batchInputText st)
      in if length parsedTexts = 0
         then [Alert (js ''Please enter at least one text item in quotes (e.g. '' @ [DQ]
                      @ js ''Hello world'' @ [DQ] @ js '')'')]
         else
           [SetIsGeneratingBatch True]
           @ try_catch_finally (batch_try e st parsedTexts)
               (\<lambda>err. [ConsoleError (js ''Error generating batch speech:'') err,
                       Alert (js ''Error generating batch speech. Please try again.'')])
               [SetIsGeneratingBatch False])"

text \<open>The state after the effects: each setter stores its argument.\<close>

fun apply_effect :: "effect \<Rightarrow> app \<Rightarrow> app" where
  "apply_effect (SetIsGenerating v) st = st\<lparr>isGenerating := v\<rparr>"
| "apply_effect (SetIsGeneratingBatch v) st = st\<lparr>isGeneratingBatch := v\<rparr>"
| "apply_effect (SetSingleAudioUrl url) st = st\<lparr>singleAudioUrl := Some url\<rparr>"
| "apply_effect other st = st"

definition state_after :: "effect list \<Rightarrow> app \<Rightarrow> app" where
  "state_after es st = fold apply_effect es st"

section \<open>The synthesis gateway\<close>

text \<open>
  Modelled from the spec: the gateway operation \<^verbatim>\<open>synthesizeSingle\<close> (sections 3, 4.1 and
  7), the server side of \<^verbatim>\<open>POST /api/tts/single\<close>, whose code is not among the sources; the
  sources hold only its caller, \<^verbatim>\<open>handleSingleGenerate\<close>. A speed is a float: a real number,
  or one of the values that are no number of the range.
\<close>

datatype number = Finite real | NaN | PosInfinity | NegInfinity

text \<open>
  Modelled from the spec: \<^verbatim>\<open>SpeechRequest\<close> (section 3), with the flag that says whether the
  custom voice prompt is to be used.
\<close>

record speech_request =
  request_text :: jsstring
  request_voice :: jsstring
  request_custom_voice_prompt :: "jsstring option"
  request_use_custom_voice :: bool
  request_speed :: number
  request_model :: jsstring

text \<open>
  Modelled from the spec: what the gateway passes to the external provider, the resolved
  parameters; the provider's answer, an error message (also for a timeout) or audio
  bytes; and the two errors of the taxonomy that a single request can end in.
\<close>

datatype resolved_voice = NamedVoice jsstring | CustomPrompt jsstring

record provider_call =
  call_text :: jsstring
  call_voice :: resolved_voice
  call_speed :: number
  call_model :: jsstring

datatype gateway_error = ValidationError | UpstreamError jsstring

text \<open>
  Modelled from the spec: the gateway's surroundings. The supported enumerations of
  voices and models are not given by the specification, so they are parameters, like the
  provider.
\<close>

record gateway =
  supported_voices :: "jsstring list"
  supported_models :: "jsstring list"
  provider :: "provider_call \<Rightarrow> jsstring + 8 word list"

text \<open>
  Modelled from the spec: the custom prompt takes precedence over the named voice when the
  custom-voice flag is set and the prompt is non-empty.
\<close>

definition resolve_voice :: "speech_request \<Rightarrow> resolved_voice" where
  "resolve_voice r =
     (case request_custom_voice_prompt r of
        None \<Rightarrow> NamedVoice (request_voice r)
      | Some p \<Rightarrow>
          if request_use_custom_voice r \<and> p \<noteq> [] then CustomPrompt p
          else NamedVoice (request_voice r))"

text \<open>
  Modelled from the spec: the validation of \<^verbatim>\<open>synthesizeSingle\<close>. The text is non-empty
  after trimming; the speed is within [0.25, 4.0]; the model and the voice, if it is used,
  are members of the supported enumerations.
\<close>

definition valid_text :: "speech_request \<Rightarrow> bool" where
  "valid_text r = (trim (request_text r) \<noteq> [])"

definition valid_speed :: "speech_request \<Rightarrow> bool" where
  "valid_speed r =
     (case request_speed r of
        Finite x \<Rightarrow> 0.25 \<le> x \<and> x \<le> 4.0
      | NaN \<Rightarrow> False
      | PosInfinity \<Rightarrow> False
      | NegInfinity \<Rightarrow> False)"

definition valid_model :: "gateway \<Rightarrow> speech_request \<Rightarrow> bool" where
  "valid_model g r = (request_model r \<in> set (supported_models g))"

definition valid_voice :: "gateway \<Rightarrow> speech_request \<Rightarrow> bool" where
  "valid_voice g r =
     (case resolve_voice r of
        NamedVoice v \<Rightarrow> v \<in> set (supported_voices g)
      | CustomPrompt p \<Rightarrow> True)"

text \<open>
  Modelled from the spec: \<^verbatim>\<open>synthesizeSingle\<close>. A request that fails the validation ends
  in \<^verbatim>\<open>ValidationError\<close> and never reaches the provider. Otherwise the gateway calls the
  provider once, with the resolved parameters, and returns its audio with the media type,
  or \<^verbatim>\<open>UpstreamError\<close> with the provider's message. The result comes with the list of the
  outbound calls made.
\<close>

definition synthesizeSingle ::
  "gateway \<Rightarrow> speech_request \<Rightarrow>
     (gateway_error + 8 word list \<times> jsstring) \<times> provider_call list" where
  "synthesizeSingle g r =
     (if \<not> (valid_text r \<and> valid_speed r \<and> valid_model g r \<and> valid_voice g r)
      then (Inl ValidationError, [])
      else
        (let call = \<lparr>call_text = request_text r, call_voice = resolve_voice r,
                       call_speed = request_speed r, call_model = request_model r\<rparr>
         in case provider g call of
              Inl message \<Rightarrow> (Inl (UpstreamError message), [call])
            | Inr audio \<Rightarrow> (Inr (audio, js ''audio/mpeg''), [call])))"

section \<open>The batch format, as the specification describes it\<close>

text \<open>
  The quoted segments of an input, from left to right: a double or single quote that has
  a later quote of the same kind opens a segment, which ends at the first such quote; the
  scan goes on behind it. A quote with no partner, and everything else, is outside
  quotes. A segment is its quote character and its content.
\<close>

function quoted_segments :: "jsstring \<Rightarrow> (16 word \<times> jsstring) list" where
  "quoted_segments [] = []"
| "quoted_segments (c # cs) =
     (if c = DQ \<or> c = SQ then
        (case find_close c cs of
           None \<Rightarrow> quoted_segments cs
         | Some (b, r) \<Rightarrow> (c, b) # quoted_segments r)
      else quoted_segments cs)"
  by pat_completeness auto
termination
  by (relation "measure length") (auto dest: find_close_length)

subsection \<open>The array of a list of segments, as the loop builds it\<close>

text \<open>
  The object the loop pushes for a segment, and the array for a list of segments numbered
  from \<open>k\<close>. The text is \<^verbatim>\<open>match[1] || match[2]\<close>: for an empty double-quoted
  segment group 1 is the empty string, which is falsy, and group 2 is \<^verbatim>\<open>undefined\<close>.
  That the loop computes \<open>numbered st 1 (quoted_segments input)\<close> is proved below.
\<close>

definition segment_item :: "app \<Rightarrow> nat \<Rightarrow> 16 word \<times> jsstring \<Rightarrow> item" where
  "segment_item st k seg =
     \<lparr>item_text = (if fst seg = DQ \<and> snd seg = [] then None else Some (snd seg)),
      item_voice = batchVoice st,
      item_filename = js ''speech_'' @ number_to_string k,
      item_speed = batchSpeed st,
      item_model = batchModel st,
      item_custom_voice_prompt =
        (if useBatchCustomVoice st then batchCustomVoicePrompt st else [])\<rparr>"

fun numbered :: "app \<Rightarrow> nat \<Rightarrow> (16 word \<times> jsstring) list \<Rightarrow> item list" where
  "numbered st k [] = []"
| "numbered st k (seg # segs) = segment_item st k seg # numbered st (Suc k) segs"

subsection \<open>Inputs written as pieces\<close>

text \<open>
  An input written as pieces: text outside quotes, which holds no quote character, and
  quoted segments, whose content does not hold their own quote character.
\<close>

datatype piece = Outside jsstring | Quoted "16 word" jsstring

fun render :: "piece list \<Rightarrow> jsstring" where
  "render [] = []"
| "render (Outside u # ps) = u @ render ps"
| "render (Quoted q b # ps) = q # b @ q # render ps"

fun well_formed :: "piece \<Rightarrow> bool" where
  "well_formed (Outside u) = (DQ \<notin> set u \<and> SQ \<notin> set u)"
| "well_formed (Quoted q b) = ((q = DQ \<or> q = SQ) \<and> q \<notin> set b)"

fun is_quoted :: "piece \<Rightarrow> bool" where
  "is_quoted (Outside u) = False"
| "is_quoted (Quoted q b) = True"

fun segments_of :: "piece list \<Rightarrow> (16 word \<times> jsstring) list" where
  "segments_of [] = []"
| "segments_of (Outside u # ps) = segments_of ps"
| "segments_of (Quoted q b # ps) = (q, b) # segments_of ps"

text \<open>
  The input with everything outside its quoted segments removed: the segments alone, each
  in its quotes, one behind the other.
\<close>

definition quoted_only :: "jsstring \<Rightarrow> jsstring" where
  "quoted_only input = render (map (\<lambda>(q, b). Quoted q b) (quoted_segments input))"

section \<open>Example inputs\<close>

text \<open>A state of the form, used to run the definitions on concrete inputs.\<close>

definition example_state :: app where
  "example_state =
     \<lparr>text' = js ''Hello world'', voice = js ''alloy'', speed = 1, model = js ''tts-1'',
      customVoicePrompt = js ''a calm narrator'', useCustomVoice = False,
      singleAudioUrl = None, isGenerating = False,
      batchInputText = [DQ] @ js ''a'' @ [DQ] @ js '', '' @ [SQ] @ js ''b'' @ [SQ],
      batchCustomVoicePrompt = js ''a calm narrator'', useBatchCustomVoice = True,
      batchVoice = js ''nova'', batchSpeed = 1.5, batchModel = js ''tts-1-hd'',
      isGeneratingBatch = False\<rparr>"

text \<open>The input \<^verbatim>\<open>foo, "bar"\<close> as pieces.\<close>

definition example_pieces :: "piece list" where
  "example_pieces = [Outside (js ''foo, ''), Quoted DQ (js ''bar'')]"

text \<open>
  A world in which the gateway answers with three bytes and the audio element is mounted,
  and one in which the request fails.
\<close>

definition example_env :: env where
  "example_env =
     \<lparr>BACKEND_URL = js ''http://localhost:8001'',
      axios_post = (\<lambda>url data. Inr [0x49, 0x44, 0x33]),
      createObjectURL = (\<lambda>b. js ''blob:http://localhost:3000/2''),
      audioRef_current = True\<rparr>"

definition failing_env :: env where
  "failing_env = example_env\<lparr>axios_post := (\<lambda>url data. Inl (Error (js ''Network Error'')))\<rparr>"

text \<open>A gateway whose provider answers with three bytes, and a valid request.\<close>

definition example_gateway :: gateway where
  "example_gateway =
     \<lparr>supported_voices = [js ''alloy'', js ''nova''],
      supported_models = [js ''tts-1'', js ''tts-1-hd''],
      provider = (\<lambda>call. Inr [0x49, 0x44, 0x33])\<rparr>"

definition example_request :: speech_request where
  "example_request =
     \<lparr>request_text = js ''Hello world'', request_voice = js ''alloy'',
      request_custom_voice_prompt = None, request_use_custom_voice = False,
      request_speed = Finite 1, request_model = js ''tts-1''\<rparr>"

section \<open>The definitions on concrete inputs\<close>

lemma number_to_string_examples:
  "number_to_string 1 = js ''1''"
  "number_to_string 10 = js ''10''"
  "number_to_string 2024 = js ''2024''"
  by code_simp+

text \<open>
  The matcher on \<^verbatim>\<open>foo, "bar"\<close>: the first match starts at index 5 and ends at 10; the
  next call finds nothing and resets \<^verbatim>\<open>lastIndex\<close>. An opening quote with no partner
  does not match, however far the star has run.
\<close>

lemma regex_exec_examples:
  \<open>regex_exec (js ''foo, "bar"'') 0 =
     (Some \<lparr>m_index = 5, m_0 = js ''"bar"'', m_1 = Some (js ''bar''), m_2 = None\<rparr>, 10)\<close>
  \<open>regex_exec (js ''foo, "bar"'') 10 = (None, 0)\<close>
  \<open>regex_exec (js ''it's "x"'') 0 =
     (Some \<lparr>m_index = 5, m_0 = js ''"x"'', m_1 = Some (js ''x''), m_2 = None\<rparr>, 8)\<close>
  \<open>quoted DQ (js ''"abc'') = None\<close>
  \<open>match_at (js ''"a'' @ [SQ] @ js ''b" c'') = Some (Some (js ''a'' @ [SQ] @ js ''b''), None, 5)\<close>
  by code_simp+

section \<open>The loop extracts the quoted segments\<close>

declare regex_exec.simps [simp del] parse_loop.simps [simp del]

lemma regex_exec_segments:
  "lastIndex \<le> length input \<Longrightarrow>
   (case regex_exec input lastIndex of
      (None, lastIndex') \<Rightarrow> quoted_segments (drop lastIndex input) = []
    | (Some m, lastIndex') \<Rightarrow>
        (\<exists>seg. lastIndex' \<le> length input \<and>
           quoted_segments (drop lastIndex input) = seg # quoted_segments (drop lastIndex' input) \<and>
           (\<forall>st k. pushed st m k = segment_item st k seg)))"
proof (induction input lastIndex rule: regex_exec.induct)
  case (1 input lastIndex)
  show ?case
  proof (cases "lastIndex = length input")
    case True
    then have "regex_exec input lastIndex = regex_exec input (lastIndex + 1)"
      by (subst regex_exec.simps) (simp add: match_at_eq)
    also have "\<dots> = (None, 0)"
      using True by (subst regex_exec.simps) simp
    finally show ?thesis using True by simp
  next
    case False
    with "1.prems" have lt: "lastIndex < length input" by simp
    define c where "c = input ! lastIndex"
    define cs where "cs = drop (lastIndex + 1) input"
    have d: "drop lastIndex input = c # cs"
      using lt by (simp add: c_def cs_def Cons_nth_drop_Suc)
    have le: "\<not> length input < lastIndex" using lt by simp
    show ?thesis
    proof (cases "match_at (c # cs)")
      case None
      then have m: "match_at (drop lastIndex input) = None" by (simp add: d)
      have q: "quoted_segments (c # cs) = quoted_segments cs"
        using None by (auto simp add: match_at_eq split: if_splits option.splits)
      then have q': "quoted_segments (drop lastIndex input) =
          quoted_segments (drop (lastIndex + 1) input)"
        by (simp only: d cs_def)
      have step: "regex_exec input lastIndex = regex_exec input (lastIndex + 1)"
        using le m by (subst regex_exec.simps) simp
      have "lastIndex + 1 \<le> length input" using lt by simp
      from "1.IH" [OF le m this]
      show ?thesis
        unfolding step q' .
    next
      case (Some a)
      obtain g1 g2 n where a: "a = (g1, g2, n)" by (cases a)
      from Some a obtain b r where
        fc: "find_close c cs = Some (b, r)" and cq: "c = DQ \<or> c = SQ"
        and g: "g1 = (if c = DQ then Some b else None)" "g2 = (if c = DQ then None else Some b)"
        and n: "n = length b + 2"
        using DQ_neq_SQ by (auto simp add: match_at_eq split: if_splits option.splits)
      from find_close_append [OF fc] have cs: "cs = b @ c # r" by simp
      have r: "drop (lastIndex + n) input = r"
      proof -
        have "drop (lastIndex + n) input = drop n (drop lastIndex input)"
          by (simp add: add.commute)
        also have "\<dots> = r" by (simp add: d cs n)
        finally show ?thesis .
      qed
      have len: "lastIndex + n \<le> length input"
      proof -
        have "length (drop lastIndex input) = n + length r"
          by (simp add: d cs n)
        then show ?thesis using n by simp
      qed
      have rex: "regex_exec input lastIndex =
        (Some \<lparr>m_index = lastIndex, m_0 = take n (drop lastIndex input), m_1 = g1, m_2 = g2\<rparr>,
         lastIndex + n)"
        using le Some a d by (subst regex_exec.simps) simp
      have qs: "quoted_segments (drop lastIndex input) = (c, b) # quoted_segments r"
        using cq fc by (simp add: d)
      have p: "pushed st \<lparr>m_index = lastIndex, m_0 = take n (drop lastIndex input),
          m_1 = g1, m_2 = g2\<rparr> k = segment_item st k (c, b)" for st k
        using cq DQ_neq_SQ
        by (auto simp add: pushed_def segment_item_def g js_or_def truthy_def)
      show ?thesis
        unfolding rex using len qs p by (simp add: r)
    qed
  qed
qed

lemma parse_loop_segments:
  "lastIndex \<le> length input \<Longrightarrow>
   parse_loop st input lastIndex k texts =
   texts @ numbered st k (quoted_segments (drop lastIndex input))"
proof (induction st input lastIndex k texts rule: parse_loop.induct)
  case (1 st input lastIndex k texts)
  obtain res lastIndex' where re: "regex_exec input lastIndex = (res, lastIndex')"
    by (cases "regex_exec input lastIndex")
  show ?case
  proof (cases res)
    case None
    with regex_exec_segments [OF "1.prems"] re
    have "quoted_segments (drop lastIndex input) = []" by simp
    with re None show ?thesis by (subst parse_loop.simps) simp
  next
    case (Some m)
    with regex_exec_segments [OF "1.prems"] re obtain seg where
      le: "lastIndex' \<le> length input"
      and qs: "quoted_segments (drop lastIndex input) = seg # quoted_segments (drop lastIndex' input)"
      and p: "\<And>st k. pushed st m k = segment_item st k seg"
      by auto
    from "1.IH" [OF re [symmetric] _ le] Some
    have "parse_loop st input lastIndex' (k + 1) (texts @ [pushed st m k]) =
      (texts @ [pushed st m k]) @ numbered st (k + 1) (quoted_segments (drop lastIndex' input))"
      by simp
    with re Some qs p show ?thesis by (subst parse_loop.simps) simp
  qed
qed

lemma quoted_segments_no_quotes:
  "DQ \<notin> set u \<Longrightarrow> SQ \<notin> set u \<Longrightarrow> quoted_segments (u @ s) = quoted_segments s"
  by (induction u) auto

lemma is_js_space_quotes: "\<not> is_js_space DQ" "\<not> is_js_space SQ"
  by (simp_all add: is_js_space_def DQ_def SQ_def)

lemma trim_empty: "trim s = [] \<longleftrightarrow> (\<forall>c \<in> set s. is_js_space c)"
proof
  assume t: "trim s = []"
  have "dropWhile is_js_space s = []"
  proof (rule ccontr)
    assume ne: "dropWhile is_js_space s \<noteq> []"
    then have "\<not> is_js_space (hd (dropWhile is_js_space s))"
      by (rule hd_dropWhile)
    moreover have "hd (dropWhile is_js_space s) \<in> set (dropWhile is_js_space s)"
      using ne by simp
    moreover have "\<forall>x \<in> set (dropWhile is_js_space s). is_js_space x"
      using t by (simp add: trim_def)
    ultimately show False by blast
  qed
  then show "\<forall>c \<in> set s. is_js_space c" by simp
next
  assume "\<forall>c \<in> set s. is_js_space c"
  then have "dropWhile is_js_space s = []" by simp
  then show "trim s = []" by (simp only: trim_def rev.simps dropWhile.simps)
qed

lemma blank_no_segments: "\<not> truthy (trim s) \<Longrightarrow> quoted_segments s = []"
proof -
  assume "\<not> truthy (trim s)"
  then have "\<forall>c \<in> set s. is_js_space c"
    by (simp add: truthy_def trim_empty)
  then have "DQ \<notin> set s" "SQ \<notin> set s"
    using is_js_space_quotes by blast+
  from quoted_segments_no_quotes [OF this, of "[]"] show ?thesis by simp
qed

lemma parseBatchInput_segments:
  "parseBatchInput st input = numbered st 1 (quoted_segments input)"
  using parse_loop_segments [of 0 input st 1 "[]"]
  by (simp add: parseBatchInput_def blank_no_segments)

lemma quoted_segments_render:
  "list_all well_formed ps \<Longrightarrow>
   quoted_segments (render ps @ s) = segments_of ps @ quoted_segments s"
proof (induction ps rule: render.induct)
  case 1
  then show ?case by simp
next
  case (2 u ps)
  then show ?case by (simp add: quoted_segments_no_quotes)
next
  case (3 q b ps)
  then have "find_close q (b @ q # render ps @ s) = Some (b, render ps @ s)"
    by (simp add: find_close_Some)
  with 3 show ?case by auto
qed

lemma segments_of_filter: "segments_of (filter is_quoted ps) = segments_of ps"
  by (induction ps rule: segments_of.induct) simp_all

lemma length_segments_of: "length (segments_of ps) = length (filter is_quoted ps)"
  by (induction ps rule: segments_of.induct) simp_all

lemma length_numbered: "length (numbered st k segs) = length segs"
  by (induction segs arbitrary: k) simp_all

lemma filename_numbered:
  "map item_filename (numbered st k segs) =
   map (\<lambda>i. js ''speech_'' @ number_to_string i) [k ..< k + length segs]"
proof (induction segs arbitrary: k)
  case Nil
  then show ?case by simp
next
  case (Cons seg segs)
  have "[k ..< k + Suc (length segs)] = k # [Suc k ..< k + Suc (length segs)]"
    by (rule upt_conv_Cons) simp
  with Cons.IH [of "Suc k"] show ?case
    by (simp add: segment_item_def)
qed

section \<open>Properties of \<^verbatim>\<open>parseBatchInput\<close>\<close>

lemma text_numbered:
  "list_all2 (\<lambda>it (q, b). item_text it = Some b \<or> item_text it = None \<and> q = DQ \<and> b = [])
     (numbered st k segs) segs"
  by (induction segs arbitrary: k) (auto simp add: segment_item_def)

lemma quoted_segments_abc:
  \<open>quoted_segments (js ''"a", "b", "c"'') = [(DQ, js ''a''), (DQ, js ''b''), (DQ, js ''c'')]\<close>
  by code_simp

lemma speech_123:
  "map (\<lambda>k. js ''speech_'' @ number_to_string k) [1 ..< 4] =
   [js ''speech_1'', js ''speech_2'', js ''speech_3'']"
  by code_simp

text \<open>
  C1: for every batch input string, \<^verbatim>\<open>parseBatchInput\<close> extracts one item per quoted
  segment (double- or single-quoted), in left-to-right order: there are as many items as
  quoted segments, and the k-th item holds the content of the k-th segment (or
  \<^verbatim>\<open>undefined\<close>, when that segment is an empty double-quoted one). The k-th item has the
  filename \<^verbatim>\<open>speech_k\<close>, counted from 1 with no gaps. In particular the input
  \<^verbatim>\<open>"a", "b", "c"\<close> yields the filenames \<^verbatim>\<open>speech_1\<close>, \<^verbatim>\<open>speech_2\<close>, \<^verbatim>\<open>speech_3\<close>,
  in that order.
\<close>

theorem parseBatchInput_one_item_per_segment:
  \<open>length (parseBatchInput st input) = length (quoted_segments input) \<and>
   list_all2 (\<lambda>it (q, b). item_text it = Some b \<or> item_text it = None \<and> q = DQ \<and> b = [])
     (parseBatchInput st input) (quoted_segments input) \<and>
   map item_filename (parseBatchInput st input) =
     map (\<lambda>k. js ''speech_'' @ number_to_string k) [1 ..< 1 + length (quoted_segments input)] \<and>
   map item_filename (parseBatchInput st (js ''"a", "b", "c"'')) =
     [js ''speech_1'', js ''speech_2'', js ''speech_3'']\<close>
proof (intro conjI)
  show "length (parseBatchInput st input) = length (quoted_segments input)"
    by (simp add: parseBatchInput_segments length_numbered)
  show "list_all2 (\<lambda>it (q, b). item_text it = Some b \<or> item_text it = None \<and> q = DQ \<and> b = [])
     (parseBatchInput st input) (quoted_segments input)"
    by (simp only: parseBatchInput_segments text_numbered)
  show "map item_filename (parseBatchInput st input) =
     map (\<lambda>k. js ''speech_'' @ number_to_string k) [1 ..< 1 + length (quoted_segments input)]"
    by (simp only: parseBatchInput_segments filename_numbered)
  show \<open>map item_filename (parseBatchInput st (js ''"a", "b", "c"'')) =
     [js ''speech_1'', js ''speech_2'', js ''speech_3'']\<close>
  proof -
    have n: "1 + length [(DQ, js ''a''), (DQ, js ''b''), (DQ, js ''c'')] = 4"
      by simp
    show ?thesis
      unfolding parseBatchInput_segments filename_numbered quoted_segments_abc n
      by (rule speech_123)
  qed
qed

text \<open>
  The input \<^verbatim>\<open>"a", "b", "c"\<close> in the example state, evaluated on the loop itself and
  through the theorem.
\<close>

theorem parseBatchInput_one_item_per_segment_witness:
  \<open>parseBatchInput example_state (js ''"a", "b", "c"'') =
     [\<lparr>item_text = Some (js ''a''), item_voice = js ''nova'', item_filename = js ''speech_1'',
       item_speed = 1.5, item_model = js ''tts-1-hd'',
       item_custom_voice_prompt = js ''a calm narrator''\<rparr>,
      \<lparr>item_text = Some (js ''b''), item_voice = js ''nova'', item_filename = js ''speech_2'',
       item_speed = 1.5, item_model = js ''tts-1-hd'',
       item_custom_voice_prompt = js ''a calm narrator''\<rparr>,
      \<lparr>item_text = Some (js ''c''), item_voice = js ''nova'', item_filename = js ''speech_3'',
       item_speed = 1.5, item_model = js ''tts-1-hd'',
       item_custom_voice_prompt = js ''a calm narrator''\<rparr>] \<and>
   length (parseBatchInput example_state (js ''"a", "b", "c"'')) = 3 \<and>
   map item_filename (parseBatchInput example_state (js ''"a", "b", "c"'')) =
     [js ''speech_1'', js ''speech_2'', js ''speech_3'']\<close>
proof (intro conjI)
  show \<open>parseBatchInput example_state (js ''"a", "b", "c"'') =
     [\<lparr>item_text = Some (js ''a''), item_voice = js ''nova'', item_filename = js ''speech_1'',
       item_speed = 1.5, item_model = js ''tts-1-hd'',
       item_custom_voice_prompt = js ''a calm narrator''\<rparr>,
      \<lparr>item_text = Some (js ''b''), item_voice = js ''nova'', item_filename = js ''speech_2'',
       item_speed = 1.5, item_model = js ''tts-1-hd'',
       item_custom_voice_prompt = js ''a calm narrator''\<rparr>,
      \<lparr>item_text = Some (js ''c''), item_voice = js ''nova'', item_filename = js ''speech_3'',
       item_speed = 1.5, item_model = js ''tts-1-hd'',
       item_custom_voice_prompt = js ''a calm narrator''\<rparr>]\<close>
    by code_simp
  have "length (parseBatchInput example_state (js ''\"a\", \"b\", \"c\"'')) =
      length (quoted_segments (js ''\"a\", \"b\", \"c\"''))"
    using parseBatchInput_one_item_per_segment [of example_state]
    by (rule conjunct1)
  then show \<open>length (parseBatchInput example_state (js ''"a", "b", "c"'')) = 3\<close>
    by (simp add: quoted_segments_abc)
  from parseBatchInput_one_item_per_segment [of example_state "[]",
      THEN conjunct2, THEN conjunct2, THEN conjunct2]
  show \<open>map item_filename (parseBatchInput example_state (js ''"a", "b", "c"'')) =
     [js ''speech_1'', js ''speech_2'', js ''speech_3'']\<close> .
qed

lemma well_formed_filter: "list_all well_formed ps \<Longrightarrow> list_all well_formed (filter is_quoted ps)"
  by (simp add: list_all_iff)

lemma quoted_segments_render_all:
  "list_all well_formed ps \<Longrightarrow> quoted_segments (render ps) = segments_of ps"
  using quoted_segments_render [of ps "[]"] by simp

lemma quoted_segments_foo_bar:
  \<open>quoted_segments (js ''foo, "bar"'') = [(DQ, js ''bar'')]\<close>
  by code_simp

lemma quoted_segments_well_formed:
  "list_all well_formed (map (\<lambda>(q, b). Quoted q b) (quoted_segments s))"
proof (induction s rule: quoted_segments.induct)
  case 1
  then show ?case by simp
next
  case (2 c cs)
  show ?case
  proof (cases "c = DQ \<or> c = SQ")
    case quote: True
    show ?thesis
    proof (cases "find_close c cs")
      case None
      from "2.IH"(1) [OF quote None] quote None show ?thesis by simp
    next
      case (Some a)
      obtain b r where a: "a = (b, r)" by (cases a)
      from find_close_append [of c cs b r] Some a have "c \<notin> set b" by simp
      with "2.IH"(2) [OF quote Some a [symmetric]] quote Some a
      show ?thesis by simp
    qed
  next
    case False
    with "2.IH"(3) [OF False] show ?thesis by simp
  qed
qed

lemma segments_of_Quoted: "segments_of (map (\<lambda>(q, b). Quoted q b) segs) = segs"
  by (induction segs) auto

lemma quoted_segments_quoted_only: "quoted_segments (quoted_only s) = quoted_segments s"
  unfolding quoted_only_def
  by (simp only: quoted_segments_render_all [OF quoted_segments_well_formed] segments_of_Quoted)

lemma quoted_segments_dont:
  \<open>quoted_segments (js ''don't, "x"'') = [(DQ, js ''x'')]\<close>
  \<open>quoted_segments (js ''foo, "bar'') = []\<close>
  by code_simp+

lemma skip_outside:
  assumes "(c \<noteq> DQ \<and> c \<noteq> SQ) \<or> c \<notin> set cs"
  shows "quoted_segments (c # cs) = quoted_segments cs"
proof (cases "c = DQ \<or> c = SQ")
  case True
  with assms have "c \<notin> set cs" by auto
  then have "find_close c cs = None" by (simp add: find_close_None)
  with True show ?thesis by simp
next
  case False
  then show ?thesis by simp
qed

text \<open>
  C2: for every batch input string, what stands outside quotes is silently dropped: it
  yields no item and no error. The items are exactly the items of the quoted segments of
  the input, so removing everything outside the segments leaves the result as it is, and a
  code unit that is no quote, or a quote with no partner behind it, is passed over. For an
  input written as pieces the text outside quotes can be removed, and an input with no
  quote character yields no item. The function is total: no input makes it fail. In
  particular \<^verbatim>\<open>foo, "bar"\<close> yields exactly one item, whose text is \<^verbatim>\<open>bar\<close>;
  \<^verbatim>\<open>don't, "x"\<close> yields the one item \<^verbatim>\<open>x\<close>, and \<^verbatim>\<open>foo, "bar\<close> yields none.
\<close>

theorem unquoted_text_is_dropped:
  \<open>parseBatchInput st input = numbered st 1 (quoted_segments input) \<and>
   parseBatchInput st input = parseBatchInput st (quoted_only input) \<and>
   length (parseBatchInput st input) = length (quoted_segments input) \<and>
   ((c \<noteq> DQ \<and> c \<noteq> SQ) \<or> c \<notin> set cs \<longrightarrow>
      parseBatchInput st (c # cs) = parseBatchInput st cs) \<and>
   (list_all well_formed ps \<longrightarrow>
      parseBatchInput st (render ps) = parseBatchInput st (render (filter is_quoted ps)) \<and>
      length (parseBatchInput st (render ps)) = length (filter is_quoted ps)) \<and>
   (DQ \<notin> set u \<and> SQ \<notin> set u \<longrightarrow> parseBatchInput st u = []) \<and>
   map item_text (parseBatchInput st (js ''foo, "bar"'')) = [Some (js ''bar'')] \<and>
   map item_text (parseBatchInput st (js ''don't, "x"'')) = [Some (js ''x'')] \<and>
   parseBatchInput st (js ''foo, "bar'') = []\<close>
proof (intro conjI impI)
  show "parseBatchInput st input = numbered st 1 (quoted_segments input)"
    by (rule parseBatchInput_segments)
  show "parseBatchInput st input = parseBatchInput st (quoted_only input)"
    by (simp only: parseBatchInput_segments quoted_segments_quoted_only)
  show "length (parseBatchInput st input) = length (quoted_segments input)"
    by (simp only: parseBatchInput_segments length_numbered)
next
  assume "(c \<noteq> DQ \<and> c \<noteq> SQ) \<or> c \<notin> set cs"
  then have "quoted_segments (c # cs) = quoted_segments cs"
    by (rule skip_outside)
  then show "parseBatchInput st (c # cs) = parseBatchInput st cs"
    by (simp only: parseBatchInput_segments)
next
  assume wf: "list_all well_formed ps"
  then have "quoted_segments (render ps) = segments_of ps"
    by (rule quoted_segments_render_all)
  moreover have "quoted_segments (render (filter is_quoted ps)) = segments_of ps"
    using quoted_segments_render_all [OF well_formed_filter [OF wf]]
    by (simp only: segments_of_filter)
  ultimately show "parseBatchInput st (render ps) =
      parseBatchInput st (render (filter is_quoted ps))"
    by (simp only: parseBatchInput_segments)
  show "length (parseBatchInput st (render ps)) = length (filter is_quoted ps)"
    using wf
    by (simp only: parseBatchInput_segments length_numbered quoted_segments_render_all
        length_segments_of)
next
  assume "DQ \<notin> set u \<and> SQ \<notin> set u"
  then have "quoted_segments (u @ []) = quoted_segments []"
    by (intro quoted_segments_no_quotes) simp_all
  then show "parseBatchInput st u = []"
    by (simp add: parseBatchInput_segments)
next
  have "js ''bar'' \<noteq> []" by (simp add: js_def)
  then show \<open>map item_text (parseBatchInput st (js ''foo, "bar"'')) = [Some (js ''bar'')]\<close>
    by (simp add: parseBatchInput_segments quoted_segments_foo_bar segment_item_def)
next
  have "js ''x'' \<noteq> []" by (simp add: js_def)
  then show \<open>map item_text (parseBatchInput st (js ''don't, "x"'')) = [Some (js ''x'')]\<close>
    by (simp add: parseBatchInput_segments quoted_segments_dont segment_item_def)
next
  show \<open>parseBatchInput st (js ''foo, "bar'') = []\<close>
    by (simp add: parseBatchInput_segments quoted_segments_dont)
qed

text \<open>
  The inputs \<^verbatim>\<open>foo, "bar"\<close>, \<^verbatim>\<open>foo, bar\<close>, \<^verbatim>\<open>don't, "x"\<close> and \<^verbatim>\<open>foo, "bar\<close> in the
  example state, and the apostrophe with no partner at the head of an input.
\<close>

theorem unquoted_text_is_dropped_witness:
  \<open>list_all well_formed example_pieces \<and>
   render example_pieces = js ''foo, "bar"'' \<and>
   parseBatchInput example_state (js ''foo, "bar"'') =
     parseBatchInput example_state (js ''"bar"'') \<and>
   length (parseBatchInput example_state (js ''foo, "bar"'')) = 1 \<and>
   DQ \<notin> set (js ''foo, bar'') \<and> SQ \<notin> set (js ''foo, bar'') \<and>
   parseBatchInput example_state (js ''foo, bar'') = [] \<and>
   map item_text (parseBatchInput example_state (js ''foo, "bar"'')) = [Some (js ''bar'')] \<and>
   quoted_only (js ''don't, "x"'') = js ''"x"'' \<and>
   parseBatchInput example_state (js ''don't, "x"'') =
     parseBatchInput example_state (js ''"x"'') \<and>
   length (parseBatchInput example_state (js ''don't, "x"'')) = 1 \<and>
   map item_text (parseBatchInput example_state (js ''don't, "x"'')) = [Some (js ''x'')] \<and>
   parseBatchInput example_state (js ''foo, "bar'') = [] \<and>
   SQ \<notin> set (js ''t, "x"'') \<and>
   parseBatchInput example_state (SQ # js ''t, "x"'') =
     parseBatchInput example_state (js ''t, "x"'') \<and>
   parseBatchInput example_state (js ''don't, "x"'') =
     [\<lparr>item_text = Some (js ''x''), item_voice = js ''nova'', item_filename = js ''speech_1'',
       item_speed = 1.5, item_model = js ''tts-1-hd'',
       item_custom_voice_prompt = js ''a calm narrator''\<rparr>]\<close>
proof -
  have wf: "list_all well_formed example_pieces"
    by code_simp
  have r: \<open>render example_pieces = js ''foo, "bar"''\<close>
    by code_simp
  have f: \<open>render (filter is_quoted example_pieces) = js ''"bar"''\<close>
    by code_simp
  have n: "length (filter is_quoted example_pieces) = 1"
    by code_simp
  have q: "DQ \<notin> set (js ''foo, bar'') \<and> SQ \<notin> set (js ''foo, bar'')"
    by code_simp
  have o: \<open>quoted_only (js ''don't, "x"'') = js ''"x"''\<close>
    by code_simp
  have l: \<open>length (quoted_segments (js ''don't, "x"'')) = 1\<close>
    by code_simp
  have a: \<open>SQ \<notin> set (js ''t, "x"'')\<close>
    by code_simp
  have ev: \<open>parseBatchInput example_state (js ''don't, "x"'') =
     [\<lparr>item_text = Some (js ''x''), item_voice = js ''nova'', item_filename = js ''speech_1'',
       item_speed = 1.5, item_model = js ''tts-1-hd'',
       item_custom_voice_prompt = js ''a calm narrator''\<rparr>]\<close>
    by code_simp
  note t = unquoted_text_is_dropped [where st = example_state and ps = example_pieces
      and u = "js ''foo, bar''" and input = "js ''don't, \"x\"''" and c = SQ
      and cs = "js ''t, \"x\"''"]
  from t wf have "parseBatchInput example_state (render example_pieces) =
      parseBatchInput example_state (render (filter is_quoted example_pieces))"
    and "length (parseBatchInput example_state (render example_pieces)) =
      length (filter is_quoted example_pieces)"
    by blast+
  then have 1: \<open>parseBatchInput example_state (js ''foo, "bar"'') =
      parseBatchInput example_state (js ''"bar"'')\<close>
    and 2: \<open>length (parseBatchInput example_state (js ''foo, "bar"'')) = 1\<close>
    unfolding r f n by blast+
  from t q have 3: "parseBatchInput example_state (js ''foo, bar'') = []"
    by blast
  from t have 4: \<open>map item_text (parseBatchInput example_state (js ''foo, "bar"'')) =
      [Some (js ''bar'')]\<close>
    by blast
  from t have \<open>parseBatchInput example_state (js ''don't, "x"'') =
      parseBatchInput example_state (quoted_only (js ''don't, "x"''))\<close>
    and \<open>length (parseBatchInput example_state (js ''don't, "x"'')) =
      length (quoted_segments (js ''don't, "x"''))\<close>
    by blast+
  then have 5: \<open>parseBatchInput example_state (js ''don't, "x"'') =
      parseBatchInput example_state (js ''"x"'')\<close>
    and 6: \<open>length (parseBatchInput example_state (js ''don't, "x"'')) = 1\<close>
    unfolding o l by blast+
  from t have 7: \<open>map item_text (parseBatchInput example_state (js ''don't, "x"'')) =
      [Some (js ''x'')]\<close>
    and 8: \<open>parseBatchInput example_state (js ''foo, "bar'') = []\<close>
    by blast+
  from t a have 9: \<open>parseBatchInput example_state (SQ # js ''t, "x"'') =
      parseBatchInput example_state (js ''t, "x"'')\<close>
    by blast
  from wf r 1 2 q 3 4 o 5 6 7 8 a 9 ev show ?thesis
    by (intro conjI) blast+
qed

lemma settings_numbered:
  "it \<in> set (numbered st k segs) \<Longrightarrow>
   item_voice it = batchVoice st \<and> item_speed it = batchSpeed st \<and>
   item_model it = batchModel st \<and>
   item_custom_voice_prompt it =
     (if useBatchCustomVoice st then batchCustomVoicePrompt st else [])"
  by (induction segs arbitrary: k) (auto simp add: segment_item_def)

text \<open>
  C6: every item that \<^verbatim>\<open>parseBatchInput\<close> extracts carries the batch voice, the batch
  speed and the batch model, and its \<^verbatim>\<open>custom_voice_prompt\<close> is the batch prompt when the
  batch custom-voice flag is set and the empty string otherwise, whatever the input and
  the settings.
\<close>

theorem parseBatchInput_batch_settings:
  "\<forall>it \<in> set (parseBatchInput st input).
     item_voice it = batchVoice st \<and> item_speed it = batchSpeed st \<and>
     item_model it = batchModel st \<and>
     item_custom_voice_prompt it =
       (if useBatchCustomVoice st then batchCustomVoicePrompt st else [])"
  unfolding parseBatchInput_segments by (intro ballI settings_numbered)

text \<open>
  The batch input of the example state, \<^verbatim>\<open>"a", 'b'\<close>, with the flag set and with the flag
  cleared.
\<close>

theorem parseBatchInput_batch_settings_witness:
  "parseBatchInput example_state (batchInputText example_state) =
     [\<lparr>item_text = Some (js ''a''), item_voice = js ''nova'', item_filename = js ''speech_1'',
       item_speed = 1.5, item_model = js ''tts-1-hd'',
       item_custom_voice_prompt = js ''a calm narrator''\<rparr>,
      \<lparr>item_text = Some (js ''b''), item_voice = js ''nova'', item_filename = js ''speech_2'',
       item_speed = 1.5, item_model = js ''tts-1-hd'',
       item_custom_voice_prompt = js ''a calm narrator''\<rparr>] \<and>
   item_custom_voice_prompt
     (parseBatchInput example_state (batchInputText example_state) ! 1) =
     batchCustomVoicePrompt example_state \<and>
   item_voice (parseBatchInput example_state (batchInputText example_state) ! 1) =
     batchVoice example_state \<and>
   item_custom_voice_prompt
     (parseBatchInput (example_state\<lparr>useBatchCustomVoice := False\<rparr>)
        (batchInputText example_state) ! 1) = []"
proof -
  let ?off = "example_state\<lparr>useBatchCustomVoice := False\<rparr>"
  let ?input = "batchInputText example_state"
  have ev: "parseBatchInput example_state ?input =
     [\<lparr>item_text = Some (js ''a''), item_voice = js ''nova'', item_filename = js ''speech_1'',
       item_speed = 1.5, item_model = js ''tts-1-hd'',
       item_custom_voice_prompt = js ''a calm narrator''\<rparr>,
      \<lparr>item_text = Some (js ''b''), item_voice = js ''nova'', item_filename = js ''speech_2'',
       item_speed = 1.5, item_model = js ''tts-1-hd'',
       item_custom_voice_prompt = js ''a calm narrator''\<rparr>]"
    by code_simp
  have len: "length (parseBatchInput example_state ?input) = 2"
    "length (parseBatchInput ?off ?input) = 2"
    by code_simp+
  have flag: "useBatchCustomVoice example_state" "\<not> useBatchCustomVoice ?off"
    by (simp_all add: example_state_def)
  have on: "parseBatchInput example_state ?input ! 1 \<in> set (parseBatchInput example_state ?input)"
    by (rule nth_mem) (simp add: len)
  have off: "parseBatchInput ?off ?input ! 1 \<in> set (parseBatchInput ?off ?input)"
    by (rule nth_mem) (simp add: len)
  from parseBatchInput_batch_settings [of example_state ?input, THEN bspec, OF on]
    parseBatchInput_batch_settings [of ?off ?input, THEN bspec, OF off]
    flag ev
  show ?thesis by simp
qed

lemma numbered_append:
  "numbered st k (xs @ ys) = numbered st k xs @ numbered st (k + length xs) ys"
  by (induction xs arbitrary: k) simp_all

lemma text_numbered_map:
  "map item_text (numbered st k segs) =
   map (\<lambda>seg. if fst seg = DQ \<and> snd seg = [] then None else Some (snd seg)) segs"
  by (induction segs arbitrary: k) (simp_all add: segment_item_def)

lemma quoted_segments_empty_pair:
  "q = DQ \<or> q = SQ \<Longrightarrow> quoted_segments ([q, q] @ rest) = (q, []) # quoted_segments rest"
  by auto

lemma text_after_pieces:
  assumes "list_all well_formed ps" and "q = DQ \<or> q = SQ"
  shows "map item_text (parseBatchInput st (render ps @ [q, q] @ rest)) =
    map item_text (parseBatchInput st (render ps))
    @ [if q = DQ then None else Some []]
    @ map item_text (parseBatchInput st rest)"
proof -
  have "quoted_segments (render ps @ [q, q] @ rest) =
      segments_of ps @ (q, []) # quoted_segments rest"
    using assms by (simp only: quoted_segments_render quoted_segments_empty_pair)
  moreover have "quoted_segments (render ps) = segments_of ps"
    using assms(1) by (rule quoted_segments_render_all)
  ultimately show ?thesis
    by (simp add: parseBatchInput_segments text_numbered_map)
qed

lemma filename_after_pieces:
  assumes "list_all well_formed ps" and "q = DQ \<or> q = SQ"
  shows "item_filename (parseBatchInput st (render ps @ [q, q] @ rest)
      ! length (parseBatchInput st (render ps))) =
    js ''speech_'' @ number_to_string (length (parseBatchInput st (render ps)) + 1)"
proof -
  let ?before = "numbered st 1 (segments_of ps)"
  have qs: "quoted_segments (render ps @ [q, q] @ rest) =
      segments_of ps @ (q, []) # quoted_segments rest"
    using assms by (simp only: quoted_segments_render quoted_segments_empty_pair)
  have all: "parseBatchInput st (render ps @ [q, q] @ rest) =
      ?before @ segment_item st (1 + length (segments_of ps)) (q, [])
        # numbered st (Suc (1 + length (segments_of ps))) (quoted_segments rest)"
    by (simp only: parseBatchInput_segments qs numbered_append numbered.simps)
  have before: "parseBatchInput st (render ps) = ?before"
    using assms(1) by (simp only: parseBatchInput_segments quoted_segments_render_all)
  have "(?before @ segment_item st (1 + length (segments_of ps)) (q, [])
        # numbered st (Suc (1 + length (segments_of ps))) (quoted_segments rest))
      ! length ?before = segment_item st (1 + length (segments_of ps)) (q, [])"
    by (rule nth_append_length)
  then show ?thesis
    unfolding all before by (simp add: length_numbered segment_item_def)
qed

text \<open>
  C9: the two kinds of quotes differ on empty segments. An empty double-quoted segment
  yields an item whose text is \<^verbatim>\<open>undefined\<close> (\<open>None\<close>), an empty single-quoted one an
  item whose text is the empty string; this holds wherever the segment stands behind
  well-formed pieces. In both cases the item is counted and numbered like any other: it
  takes the next filename, and the items behind it follow. So the parser does not make
  \<^verbatim>\<open>text\<close> a non-empty string.
\<close>

theorem empty_segments_asymmetry:
  "(list_all well_formed ps \<longrightarrow>
      map item_text (parseBatchInput st (render ps @ [DQ, DQ] @ rest)) =
        map item_text (parseBatchInput st (render ps)) @ [None]
        @ map item_text (parseBatchInput st rest) \<and>
      map item_text (parseBatchInput st (render ps @ [SQ, SQ] @ rest)) =
        map item_text (parseBatchInput st (render ps)) @ [Some []]
        @ map item_text (parseBatchInput st rest) \<and>
      item_filename (parseBatchInput st (render ps @ [DQ, DQ] @ rest)
          ! length (parseBatchInput st (render ps))) =
        js ''speech_'' @ number_to_string (length (parseBatchInput st (render ps)) + 1) \<and>
      item_filename (parseBatchInput st (render ps @ [SQ, SQ] @ rest)
          ! length (parseBatchInput st (render ps))) =
        js ''speech_'' @ number_to_string (length (parseBatchInput st (render ps)) + 1)) \<and>
   map item_text (parseBatchInput st [DQ, DQ]) = [None] \<and>
   map item_text (parseBatchInput st [SQ, SQ]) = [Some []] \<and>
   map item_filename (parseBatchInput st [DQ, DQ]) = [js ''speech_1''] \<and>
   map item_filename (parseBatchInput st [SQ, SQ]) = [js ''speech_1'']"
proof -
  have one: "js ''speech_'' @ number_to_string (Suc 0) = js ''speech_1''"
    by code_simp
  have dq: "quoted_segments [DQ, DQ] = [(DQ, [])]" and sq: "quoted_segments [SQ, SQ] = [(SQ, [])]"
    by simp_all
  have "map item_text (parseBatchInput st [DQ, DQ]) = [None]"
    by (simp add: parseBatchInput_segments dq segment_item_def)
  moreover have "map item_text (parseBatchInput st [SQ, SQ]) = [Some []]"
    using DQ_neq_SQ by (simp add: parseBatchInput_segments sq segment_item_def)
  moreover have "map item_filename (parseBatchInput st [DQ, DQ]) = [js ''speech_1'']"
    by (simp add: parseBatchInput_segments dq segment_item_def one)
  moreover have "map item_filename (parseBatchInput st [SQ, SQ]) = [js ''speech_1'']"
    by (simp add: parseBatchInput_segments sq segment_item_def one)
  moreover have "list_all well_formed ps \<longrightarrow>
      map item_text (parseBatchInput st (render ps @ [DQ, DQ] @ rest)) =
        map item_text (parseBatchInput st (render ps)) @ [None]
        @ map item_text (parseBatchInput st rest) \<and>
      map item_text (parseBatchInput st (render ps @ [SQ, SQ] @ rest)) =
        map item_text (parseBatchInput st (render ps)) @ [Some []]
        @ map item_text (parseBatchInput st rest) \<and>
      item_filename (parseBatchInput st (render ps @ [DQ, DQ] @ rest)
          ! length (parseBatchInput st (render ps))) =
        js ''speech_'' @ number_to_string (length (parseBatchInput st (render ps)) + 1) \<and>
      item_filename (parseBatchInput st (render ps @ [SQ, SQ] @ rest)
          ! length (parseBatchInput st (render ps))) =
        js ''speech_'' @ number_to_string (length (parseBatchInput st (render ps)) + 1)"
    using text_after_pieces [of ps DQ st rest] text_after_pieces [of ps SQ st rest]
      filename_after_pieces [of ps DQ st rest] filename_after_pieces [of ps SQ st rest]
      DQ_neq_SQ
    by simp
  ultimately show ?thesis by blast
qed

text \<open>
  The pieces \<^verbatim>\<open>foo, "bar"\<close> followed by an empty double-quoted and an empty single-quoted
  segment.
\<close>

theorem empty_segments_asymmetry_witness:
  "list_all well_formed example_pieces \<and>
   map item_text (parseBatchInput example_state (render example_pieces @ [DQ, DQ] @ [SQ, SQ])) =
     [Some (js ''bar''), None, Some []] \<and>
   item_filename (parseBatchInput example_state (render example_pieces @ [DQ, DQ] @ [SQ, SQ]) ! 1) =
     js ''speech_2'' \<and>
   parseBatchInput example_state (render example_pieces @ [DQ, DQ] @ [SQ, SQ]) =
     [\<lparr>item_text = Some (js ''bar''), item_voice = js ''nova'', item_filename = js ''speech_1'',
       item_speed = 1.5, item_model = js ''tts-1-hd'',
       item_custom_voice_prompt = js ''a calm narrator''\<rparr>,
      \<lparr>item_text = None, item_voice = js ''nova'', item_filename = js ''speech_2'',
       item_speed = 1.5, item_model = js ''tts-1-hd'',
       item_custom_voice_prompt = js ''a calm narrator''\<rparr>,
      \<lparr>item_text = Some [], item_voice = js ''nova'', item_filename = js ''speech_3'',
       item_speed = 1.5, item_model = js ''tts-1-hd'',
       item_custom_voice_prompt = js ''a calm narrator''\<rparr>]"
proof -
  have wf: "list_all well_formed example_pieces"
    by code_simp
  have before: "map item_text (parseBatchInput example_state (render example_pieces)) =
      [Some (js ''bar'')]"
    by code_simp
  have n: "length (parseBatchInput example_state (render example_pieces)) = 1"
    by code_simp
  have two: "js ''speech_'' @ number_to_string (1 + 1) = js ''speech_2''"
    by code_simp
  have ev: "parseBatchInput example_state (render example_pieces @ [DQ, DQ] @ [SQ, SQ]) =
     [\<lparr>item_text = Some (js ''bar''), item_voice = js ''nova'', item_filename = js ''speech_1'',
       item_speed = 1.5, item_model = js ''tts-1-hd'',
       item_custom_voice_prompt = js ''a calm narrator''\<rparr>,
      \<lparr>item_text = None, item_voice = js ''nova'', item_filename = js ''speech_2'',
       item_speed = 1.5, item_model = js ''tts-1-hd'',
       item_custom_voice_prompt = js ''a calm narrator''\<rparr>,
      \<lparr>item_text = Some [], item_voice = js ''nova'', item_filename = js ''speech_3'',
       item_speed = 1.5, item_model = js ''tts-1-hd'',
       item_custom_voice_prompt = js ''a calm narrator''\<rparr>]"
    by code_simp
  note t = empty_segments_asymmetry [of example_pieces example_state "[SQ, SQ]"]
  from t wf have "map item_text
      (parseBatchInput example_state (render example_pieces @ [DQ, DQ] @ [SQ, SQ])) =
      map item_text (parseBatchInput example_state (render example_pieces)) @ [None]
      @ map item_text (parseBatchInput example_state [SQ, SQ])"
    by blast
  moreover from t have "map item_text (parseBatchInput example_state [SQ, SQ]) = [Some []]"
    by blast
  ultimately have texts: "map item_text
      (parseBatchInput example_state (render example_pieces @ [DQ, DQ] @ [SQ, SQ])) =
      [Some (js ''bar''), None, Some []]"
    by (simp only: before append.simps)
  from t wf have "item_filename
      (parseBatchInput example_state (render example_pieces @ [DQ, DQ] @ [SQ, SQ])
        ! length (parseBatchInput example_state (render example_pieces))) =
      js ''speech_'' @ number_to_string
        (length (parseBatchInput example_state (render example_pieces)) + 1)"
    by blast
  then have name: "item_filename
      (parseBatchInput example_state (render example_pieces @ [DQ, DQ] @ [SQ, SQ]) ! 1) =
      js ''speech_2''"
    by (simp only: n two)
  from wf texts name ev show ?thesis by blast
qed

text \<open>
  C10: the content of a quoted segment, with its commas and with the other quote
  character, is to become the text of one item. The loop does this for every segment
  but the empty double-quoted one: there \<^verbatim>\<open>match[1] || match[2]\<close> passes over the empty
  string of group 1 and takes group 2, which is \<^verbatim>\<open>undefined\<close>. The single-quoted
  alternative keeps the empty string. The input here is the two code units \<^verbatim>\<open>""\<close>.
\<close>

theorem empty_double_quoted_text_is_undefined:
  "map item_text (parseBatchInput st [DQ, DQ]) = [None] \<and>
   map item_text (parseBatchInput st [DQ, DQ]) \<noteq> [Some []] \<and>
   map item_text (parseBatchInput st [SQ, SQ]) = [Some []]"
proof -
  have dq: "quoted_segments [DQ, DQ] = [(DQ, [])]" and sq: "quoted_segments [SQ, SQ] = [(SQ, [])]"
    by simp_all
  have "map item_text (parseBatchInput st [DQ, DQ]) = [None]"
    by (simp add: parseBatchInput_segments dq segment_item_def)
  moreover have "map item_text (parseBatchInput st [SQ, SQ]) = [Some []]"
    using DQ_neq_SQ by (simp add: parseBatchInput_segments sq segment_item_def)
  ultimately show ?thesis by simp
qed

text \<open>
  The rest of that statement holds: a segment that is not the empty double-quoted one
  becomes one item whose text is its whole content, commas and the other quote character
  included, and two segments need nothing between them.
\<close>

lemma quoted_content_is_one_item:
  assumes "q = DQ \<or> q = SQ" and "q \<notin> set b" and "b \<noteq> [] \<or> q = SQ"
  shows "map item_text (parseBatchInput st (q # b @ [q])) = [Some b]"
proof -
  have "find_close q (b @ q # []) = Some (b, [])"
    using assms(2) by (rule find_close_Some)
  then have "quoted_segments (q # b @ [q]) = [(q, b)]"
    using assms(1) by auto
  then show ?thesis
    using assms(3) DQ_neq_SQ by (auto simp add: parseBatchInput_segments segment_item_def)
qed

lemma comma_inside_quotes:
  \<open>map item_text (parseBatchInput st (js ''"a, b"'')) = [Some (js ''a, b'')]\<close>
proof -
  have "DQ \<notin> set (js ''a, b'')" and "js ''a, b'' \<noteq> []"
    by code_simp+
  then have "map item_text (parseBatchInput st (DQ # js ''a, b'' @ [DQ])) = [Some (js ''a, b'')]"
    by (intro quoted_content_is_one_item) simp_all
  moreover have \<open>js ''"a, b"'' = DQ # js ''a, b'' @ [DQ]\<close>
    by code_simp
  ultimately show ?thesis by simp
qed

lemma segments_need_no_separator:
  assumes "list_all well_formed ps"
  shows "map item_text (parseBatchInput st (render ps)) =
    map item_text (parseBatchInput st (render (filter is_quoted ps)))"
proof -
  have "quoted_segments (render (filter is_quoted ps)) = segments_of ps"
    using quoted_segments_render_all [OF well_formed_filter [OF assms]]
    by (simp only: segments_of_filter)
  then show ?thesis
    using assms by (simp only: parseBatchInput_segments quoted_segments_render_all)
qed

section \<open>Properties of the handlers\<close>

lemma try_catch_finally_ends:
  "\<exists>es. try_catch_finally tried handler final = es @ final"
  by (cases tried) (auto simp add: try_catch_finally_def split: sum.splits)

lemma state_after_append:
  "state_after (es @ fs) st = state_after fs (state_after es st)"
  by (simp add: state_after_def)

lemma single_passes:
  "truthy (trim (text' st)) \<Longrightarrow>
   handleSingleGenerate e st =
     [SetIsGenerating True]
     @ try_catch_finally (single_try e st)
         (\<lambda>err. [ConsoleError (js ''Error generating speech:'') err,
                 Alert (js ''Error generating speech. Please try again.'')])
         [SetIsGenerating False]"
  by (simp add: handleSingleGenerate_def)

lemma single_try_starts:
  "\<exists>r es. single_try e st =
     (r, AxiosPost (API e @ js ''/tts/single'') (Single (build_payload st)) # es)"
  by (auto simp add: single_try_def Let_def split: sum.splits)

lemma single_starts:
  assumes "truthy (trim (text' st))"
  shows "\<exists>es. handleSingleGenerate e st =
     SetIsGenerating True
     # AxiosPost (API e @ js ''/tts/single'') (Single (build_payload st)) # es"
proof -
  obtain r es where "single_try e st =
     (r, AxiosPost (API e @ js ''/tts/single'') (Single (build_payload st)) # es)"
    using single_try_starts by blast
  then show ?thesis
    by (cases r) (simp_all add: single_passes [OF assms] try_catch_finally_def)
qed

lemma payload_speed_build_payload: "payload_speed (build_payload st) = speed st"
  by (simp add: build_payload_def Let_def)

text \<open>
  The handler does not look at the speed: it forwards the speed of the form in the payload.
\<close>

lemma handler_forwards_speed:
  "truthy (trim (text' st)) \<longrightarrow>
     (\<exists>es. handleSingleGenerate e st =
        SetIsGenerating True
        # AxiosPost (API e @ js ''/tts/single'') (Single (build_payload st)) # es) \<and>
     payload_speed (build_payload st) = speed st"
  using single_starts [of st e] payload_speed_build_payload [of st] by blast

lemma build_payload_fields:
  "payload_text (build_payload st) = text' st"
  "payload_model (build_payload st) = model st"
  "useCustomVoice st \<and> truthy (trim (customVoicePrompt st)) \<Longrightarrow>
     payload_custom_voice_prompt (build_payload st) = Some (customVoicePrompt st) \<and>
     payload_voice (build_payload st) = None"
  "\<not> (useCustomVoice st \<and> truthy (trim (customVoicePrompt st))) \<Longrightarrow>
     payload_custom_voice_prompt (build_payload st) = None \<and>
     payload_voice (build_payload st) = Some (voice st)"
  by (simp_all add: build_payload_def Let_def)

text \<open>
  C4: the payload of a single-generation request holds exactly one of \<^verbatim>\<open>voice\<close> and
  \<^verbatim>\<open>custom_voice_prompt\<close>. It holds \<^verbatim>\<open>custom_voice_prompt\<close> (the prompt as typed) and no
  \<^verbatim>\<open>voice\<close> if and only if the use-custom-voice flag is set and the prompt is not empty
  after trimming; otherwise it holds \<^verbatim>\<open>voice\<close> (the named voice) and no
  \<^verbatim>\<open>custom_voice_prompt\<close>. This payload is the one the handler posts.
\<close>

theorem payload_voice_or_custom_prompt:
  "(truthy (trim (text' st)) \<longrightarrow>
      (\<exists>es. handleSingleGenerate e st =
         SetIsGenerating True
         # AxiosPost (API e @ js ''/tts/single'') (Single (build_payload st)) # es)) \<and>
   (payload_custom_voice_prompt (build_payload st) \<noteq> None \<longleftrightarrow>
      useCustomVoice st \<and> truthy (trim (customVoicePrompt st))) \<and>
   (payload_voice (build_payload st) \<noteq> None \<longleftrightarrow>
      payload_custom_voice_prompt (build_payload st) = None) \<and>
   (useCustomVoice st \<and> truthy (trim (customVoicePrompt st)) \<longrightarrow>
      payload_custom_voice_prompt (build_payload st) = Some (customVoicePrompt st)) \<and>
   (\<not> (useCustomVoice st \<and> truthy (trim (customVoicePrompt st))) \<longrightarrow>
      payload_voice (build_payload st) = Some (voice st))"
proof (cases "useCustomVoice st \<and> truthy (trim (customVoicePrompt st))")
  case True
  from build_payload_fields(3) [OF True] True single_starts [of st e]
  show ?thesis by auto
next
  case False
  from build_payload_fields(4) [OF False] False single_starts [of st e]
  show ?thesis by auto
qed

text \<open>
  The example state, where the flag is off; the same with the flag on; and with the flag
  on and a prompt of spaces.
\<close>

theorem payload_voice_or_custom_prompt_witness:
  "truthy (trim (text' example_state)) \<and>
   build_payload example_state =
     \<lparr>payload_text = js ''Hello world'', payload_speed = 1, payload_model = js ''tts-1'',
      payload_voice = Some (js ''alloy''), payload_custom_voice_prompt = None\<rparr> \<and>
   build_payload (example_state\<lparr>useCustomVoice := True\<rparr>) =
     \<lparr>payload_text = js ''Hello world'', payload_speed = 1, payload_model = js ''tts-1'',
      payload_voice = None, payload_custom_voice_prompt = Some (js ''a calm narrator'')\<rparr> \<and>
   build_payload (example_state\<lparr>useCustomVoice := True, customVoicePrompt := js ''  ''\<rparr>) =
     \<lparr>payload_text = js ''Hello world'', payload_speed = 1, payload_model = js ''tts-1'',
      payload_voice = Some (js ''alloy''), payload_custom_voice_prompt = None\<rparr> \<and>
   (\<exists>es. handleSingleGenerate example_env (example_state\<lparr>useCustomVoice := True\<rparr>) =
      SetIsGenerating True
      # AxiosPost (API example_env @ js ''/tts/single'')
          (Single (build_payload (example_state\<lparr>useCustomVoice := True\<rparr>))) # es) \<and>
   payload_voice (build_payload example_state) = Some (voice example_state) \<and>
   payload_custom_voice_prompt (build_payload (example_state\<lparr>useCustomVoice := True\<rparr>)) =
     Some (customVoicePrompt example_state)"
proof -
  let ?on = "example_state\<lparr>useCustomVoice := True\<rparr>"
  have t: "truthy (trim (text' example_state))" "truthy (trim (text' ?on))"
    by code_simp+
  have off: "\<not> (useCustomVoice example_state \<and> truthy (trim (customVoicePrompt example_state)))"
    by code_simp
  have on: "useCustomVoice ?on \<and> truthy (trim (customVoicePrompt ?on))"
    by code_simp
  have p: "customVoicePrompt ?on = customVoicePrompt example_state"
    by simp
  have ev: "build_payload example_state =
     \<lparr>payload_text = js ''Hello world'', payload_speed = 1, payload_model = js ''tts-1'',
      payload_voice = Some (js ''alloy''), payload_custom_voice_prompt = None\<rparr>"
    "build_payload ?on =
     \<lparr>payload_text = js ''Hello world'', payload_speed = 1, payload_model = js ''tts-1'',
      payload_voice = None, payload_custom_voice_prompt = Some (js ''a calm narrator'')\<rparr>"
    "build_payload (example_state\<lparr>useCustomVoice := True, customVoicePrompt := js ''  ''\<rparr>) =
     \<lparr>payload_text = js ''Hello world'', payload_speed = 1, payload_model = js ''tts-1'',
      payload_voice = Some (js ''alloy''), payload_custom_voice_prompt = None\<rparr>"
    by code_simp+
  from payload_voice_or_custom_prompt [of example_state example_env] off
  have a: "payload_voice (build_payload example_state) = Some (voice example_state)"
    by blast
  from payload_voice_or_custom_prompt [of ?on example_env] on t(2)
  have b: "\<exists>es. handleSingleGenerate example_env ?on =
      SetIsGenerating True
      # AxiosPost (API example_env @ js ''/tts/single'') (Single (build_payload ?on)) # es"
    and c: "payload_custom_voice_prompt (build_payload ?on) = Some (customVoicePrompt ?on)"
    by blast+
  from t(1) ev a b c show ?thesis
    unfolding p by blast
qed

lemma blank_text: "(\<forall>c \<in> set s. is_js_space c) \<longleftrightarrow> \<not> truthy (trim s)"
  by (simp add: truthy_def trim_empty)

text \<open>
  C5: for every text that is empty or holds only whitespace, \<^verbatim>\<open>handleSingleGenerate\<close>
  shows the validation message and does nothing else: no request goes to the gateway, and
  the state is left as it was.
\<close>

theorem blank_text_is_rejected:
  "(\<forall>c \<in> set (text' st). is_js_space c) \<longrightarrow>
     handleSingleGenerate e st = [Alert (js ''Please enter some text to convert to speech'')] \<and>
     (\<forall>url data. AxiosPost url data \<notin> set (handleSingleGenerate e st)) \<and>
     state_after (handleSingleGenerate e st) st = st"
  by (auto simp add: blank_text handleSingleGenerate_def state_after_def)

text \<open>The empty text, and a text of two spaces, a tab, a line feed and a no-break space.\<close>

theorem blank_text_is_rejected_witness:
  "list_all is_js_space (text' (example_state\<lparr>text' := []\<rparr>)) \<and>
   list_all is_js_space (text' (example_state\<lparr>text' := js ''  '' @ [0x09, 0x0A, 0xA0]\<rparr>)) \<and>
   handleSingleGenerate example_env (example_state\<lparr>text' := []\<rparr>) =
     [Alert (js ''Please enter some text to convert to speech'')] \<and>
   handleSingleGenerate example_env (example_state\<lparr>text' := js ''  '' @ [0x09, 0x0A, 0xA0]\<rparr>) =
     [Alert (js ''Please enter some text to convert to speech'')]"
proof -
  let ?empty = "example_state\<lparr>text' := []\<rparr>"
  let ?blank = "example_state\<lparr>text' := js ''  '' @ [0x09, 0x0A, 0xA0]\<rparr>"
  have e: "list_all is_js_space (text' ?empty)"
    by simp
  have b: "list_all is_js_space (text' ?blank)"
    by (simp add: js_def is_js_space_def)
  have e': "\<forall>c \<in> set (text' ?empty). is_js_space c"
    using e by (simp only: list_all_iff)
  have b': "\<forall>c \<in> set (text' ?blank). is_js_space c"
    using b by (simp only: list_all_iff)
  from blank_text_is_rejected [of ?empty example_env] e'
  have "handleSingleGenerate example_env ?empty =
      [Alert (js ''Please enter some text to convert to speech'')]"
    by blast
  moreover from blank_text_is_rejected [of ?blank example_env] b'
  have "handleSingleGenerate example_env ?blank =
      [Alert (js ''Please enter some text to convert to speech'')]"
    by blast
  ultimately show ?thesis
    using e b by blast
qed

lemma batch_passes:
  "parseBatchInput st (batchInputText st) \<noteq> [] \<Longrightarrow>
   handleBatchGenerate e st =
     [SetIsGeneratingBatch True]
     @ try_catch_finally (batch_try e st (parseBatchInput st (batchInputText st)))
         (\<lambda>err. [ConsoleError (js ''Error generating batch speech:'') err,
                 Alert (js ''Error generating batch speech. Please try again.'')])
         [SetIsGeneratingBatch False]"
  by (simp add: handleBatchGenerate_def Let_def)

lemma state_after_snoc:
  "state_after (es @ [x]) st = apply_effect x (state_after es st)"
  by (simp add: state_after_def)

text \<open>
  C7: every run of \<^verbatim>\<open>handleSingleGenerate\<close> and of \<^verbatim>\<open>handleBatchGenerate\<close> that passes
  the validation of its input sets its loading flag first and resets it last, whatever
  the world answers: the request may succeed or fail. The reset is the final block of the
  \<^verbatim>\<open>try\<close> statement, which runs on both paths, and the flag is false in the state after
  the run.
\<close>

theorem loading_flag_is_reset:
  "(truthy (trim (text' st)) \<longrightarrow>
      (\<exists>es. handleSingleGenerate e st = SetIsGenerating True # es @ [SetIsGenerating False]) \<and>
      isGenerating (state_after (handleSingleGenerate e st) st) = False) \<and>
   (parseBatchInput st (batchInputText st) \<noteq> [] \<longrightarrow>
      (\<exists>es. handleBatchGenerate e st =
         SetIsGeneratingBatch True # es @ [SetIsGeneratingBatch False]) \<and>
      isGeneratingBatch (state_after (handleBatchGenerate e st) st) = False)"
proof (intro conjI impI)
  assume ok: "truthy (trim (text' st))"
  obtain es where es: "try_catch_finally (single_try e st)
      (\<lambda>err. [ConsoleError (js ''Error generating speech:'') err,
              Alert (js ''Error generating speech. Please try again.'')])
      [SetIsGenerating False] = es @ [SetIsGenerating False]"
    using try_catch_finally_ends by blast
  have h: "handleSingleGenerate e st = SetIsGenerating True # es @ [SetIsGenerating False]"
    by (simp add: single_passes [OF ok] es)
  then show "\<exists>es. handleSingleGenerate e st =
      SetIsGenerating True # es @ [SetIsGenerating False]"
    by blast
  have "handleSingleGenerate e st = (SetIsGenerating True # es) @ [SetIsGenerating False]"
    by (simp add: h)
  then show "isGenerating (state_after (handleSingleGenerate e st) st) = False"
    by (simp only: state_after_snoc apply_effect.simps) simp
next
  assume ok: "parseBatchInput st (batchInputText st) \<noteq> []"
  obtain es where es: "try_catch_finally
      (batch_try e st (parseBatchInput st (batchInputText st)))
      (\<lambda>err. [ConsoleError (js ''Error generating batch speech:'') err,
              Alert (js ''Error generating batch speech. Please try again.'')])
      [SetIsGeneratingBatch False] = es @ [SetIsGeneratingBatch False]"
    using try_catch_finally_ends by blast
  have h: "handleBatchGenerate e st =
      SetIsGeneratingBatch True # es @ [SetIsGeneratingBatch False]"
    by (simp add: batch_passes [OF ok] es)
  then show "\<exists>es. handleBatchGenerate e st =
      SetIsGeneratingBatch True # es @ [SetIsGeneratingBatch False]"
    by blast
  have "handleBatchGenerate e st =
      (SetIsGeneratingBatch True # es) @ [SetIsGeneratingBatch False]"
    by (simp add: h)
  then show "isGeneratingBatch (state_after (handleBatchGenerate e st) st) = False"
    by (simp only: state_after_snoc apply_effect.simps) simp
qed

text \<open>
  The example state in the world where the requests fail: both handlers report the error
  and reset their flags. In the world where they succeed the flags are reset as well.
\<close>

theorem loading_flag_is_reset_witness:
  "truthy (trim (text' example_state)) \<and>
   parseBatchInput example_state (batchInputText example_state) \<noteq> [] \<and>
   handleSingleGenerate failing_env example_state =
     [SetIsGenerating True,
      AxiosPost (js ''http://localhost:8001/api/tts/single'')
        (Single \<lparr>payload_text = js ''Hello world'', payload_speed = 1,
                  payload_model = js ''tts-1'', payload_voice = Some (js ''alloy''),
                  payload_custom_voice_prompt = None\<rparr>),
      ConsoleError (js ''Error generating speech:'') (Error (js ''Network Error'')),
      Alert (js ''Error generating speech. Please try again.''),
      SetIsGenerating False] \<and>
   isGenerating (state_after (handleSingleGenerate failing_env example_state) example_state) =
     False \<and>
   isGeneratingBatch (state_after (handleBatchGenerate failing_env example_state) example_state) =
     False \<and>
   isGenerating (state_after (handleSingleGenerate example_env example_state) example_state) =
     False \<and>
   isGeneratingBatch (state_after (handleBatchGenerate example_env example_state) example_state) =
     False \<and>
   last (handleBatchGenerate failing_env example_state) = SetIsGeneratingBatch False \<and>
   last (handleBatchGenerate example_env example_state) = SetIsGeneratingBatch False"
proof -
  have t: "truthy (trim (text' example_state))"
    by code_simp
  have b: "parseBatchInput example_state (batchInputText example_state) \<noteq> []"
    by code_simp
  have ev: "handleSingleGenerate failing_env example_state =
     [SetIsGenerating True,
      AxiosPost (js ''http://localhost:8001/api/tts/single'')
        (Single \<lparr>payload_text = js ''Hello world'', payload_speed = 1,
                  payload_model = js ''tts-1'', payload_voice = Some (js ''alloy''),
                  payload_custom_voice_prompt = None\<rparr>),
      ConsoleError (js ''Error generating speech:'') (Error (js ''Network Error'')),
      Alert (js ''Error generating speech. Please try again.''),
      SetIsGenerating False]"
    by code_simp
  note f = loading_flag_is_reset [of example_state failing_env]
  note s = loading_flag_is_reset [of example_state example_env]
  from f t have f1:
    "isGenerating (state_after (handleSingleGenerate failing_env example_state) example_state) =
      False"
    by blast
  from f b have f2:
    "isGeneratingBatch (state_after (handleBatchGenerate failing_env example_state)
      example_state) = False"
    by blast
  from s t have s1:
    "isGenerating (state_after (handleSingleGenerate example_env example_state) example_state) =
      False"
    by blast
  from s b have s2:
    "isGeneratingBatch (state_after (handleBatchGenerate example_env example_state)
      example_state) = False"
    by blast
  from f b obtain es where "handleBatchGenerate failing_env example_state =
      SetIsGeneratingBatch True # es @ [SetIsGeneratingBatch False]"
    by blast
  then have f3: "last (handleBatchGenerate failing_env example_state) = SetIsGeneratingBatch False"
    by simp
  from s b obtain es where "handleBatchGenerate example_env example_state =
      SetIsGeneratingBatch True # es @ [SetIsGeneratingBatch False]"
    by blast
  then have s3: "last (handleBatchGenerate example_env example_state) = SetIsGeneratingBatch False"
    by simp
  from t b ev f1 f2 s1 s2 f3 s3 show ?thesis by blast
qed

lemma single_succeeds:
  assumes "truthy (trim (text' st))"
    and "axios_post e (API e @ js ''/tts/single'') (Single (build_payload st)) = Inr response_data"
  shows "handleSingleGenerate e st =
     [SetIsGenerating True,
      AxiosPost (API e @ js ''/tts/single'') (Single (build_payload st)),
      CreateObjectURL (Blob response_data (js ''audio/mpeg''))]
     @ (case singleAudioUrl st of
          None \<Rightarrow> []
        | Some old \<Rightarrow> if truthy old then [RevokeObjectURL old] else [])
     @ [SetSingleAudioUrl (createObjectURL e (Blob response_data (js ''audio/mpeg'')))]
     @ (if audioRef_current e then [AudioLoad, AudioPlay] else [])
     @ [SetIsGenerating False]"
  using assms(2)
  by (simp add: single_passes [OF assms(1)] try_catch_finally_def single_try_def Let_def)

text \<open>
  C8, as the code has it: on every successful single generation, a previously generated
  audio handle, if there is one, is released (its object URL revoked) before the new
  handle replaces it, and the new handle is the one in the state afterwards. Playback of
  the new audio is triggered when \<^verbatim>\<open>audioRef.current\<close> holds the audio element, and only
  then.
\<close>

theorem successful_generation_replaces_audio:
  assumes "truthy (trim (text' st))"
    and "axios_post e (API e @ js ''/tts/single'') (Single (build_payload st)) = Inr response_data"
  shows "(\<forall>old. singleAudioUrl st = Some old \<and> old \<noteq> [] \<longrightarrow>
      handleSingleGenerate e st =
        [SetIsGenerating True,
         AxiosPost (API e @ js ''/tts/single'') (Single (build_payload st)),
         CreateObjectURL (Blob response_data (js ''audio/mpeg'')),
         RevokeObjectURL old,
         SetSingleAudioUrl (createObjectURL e (Blob response_data (js ''audio/mpeg'')))]
        @ (if audioRef_current e then [AudioLoad, AudioPlay] else [])
        @ [SetIsGenerating False]) \<and>
    (singleAudioUrl st = None \<longrightarrow>
      handleSingleGenerate e st =
        [SetIsGenerating True,
         AxiosPost (API e @ js ''/tts/single'') (Single (build_payload st)),
         CreateObjectURL (Blob response_data (js ''audio/mpeg'')),
         SetSingleAudioUrl (createObjectURL e (Blob response_data (js ''audio/mpeg'')))]
        @ (if audioRef_current e then [AudioLoad, AudioPlay] else [])
        @ [SetIsGenerating False]) \<and>
    singleAudioUrl (state_after (handleSingleGenerate e st) st) =
      Some (createObjectURL e (Blob response_data (js ''audio/mpeg''))) \<and>
    (AudioPlay \<in> set (handleSingleGenerate e st) \<longleftrightarrow> audioRef_current e)"
proof (intro conjI allI impI)
  fix old
  assume "singleAudioUrl st = Some old \<and> old \<noteq> []"
  then show "handleSingleGenerate e st =
        [SetIsGenerating True,
         AxiosPost (API e @ js ''/tts/single'') (Single (build_payload st)),
         CreateObjectURL (Blob response_data (js ''audio/mpeg'')),
         RevokeObjectURL old,
         SetSingleAudioUrl (createObjectURL e (Blob response_data (js ''audio/mpeg'')))]
        @ (if audioRef_current e then [AudioLoad, AudioPlay] else [])
        @ [SetIsGenerating False]"
    by (simp add: single_succeeds [OF assms] truthy_def)
next
  assume "singleAudioUrl st = None"
  then show "handleSingleGenerate e st =
        [SetIsGenerating True,
         AxiosPost (API e @ js ''/tts/single'') (Single (build_payload st)),
         CreateObjectURL (Blob response_data (js ''audio/mpeg'')),
         SetSingleAudioUrl (createObjectURL e (Blob response_data (js ''audio/mpeg'')))]
        @ (if audioRef_current e then [AudioLoad, AudioPlay] else [])
        @ [SetIsGenerating False]"
    by (simp add: single_succeeds [OF assms])
next
  show "singleAudioUrl (state_after (handleSingleGenerate e st) st) =
      Some (createObjectURL e (Blob response_data (js ''audio/mpeg'')))"
    by (cases "singleAudioUrl st")
      (simp_all add: single_succeeds [OF assms] state_after_def)
next
  show "AudioPlay \<in> set (handleSingleGenerate e st) \<longleftrightarrow> audioRef_current e"
    by (cases "singleAudioUrl st")
      (simp_all add: single_succeeds [OF assms])
qed

text \<open>
  A state that holds an earlier object URL, in the world where the request succeeds and
  the audio element is mounted.
\<close>

theorem successful_generation_replaces_audio_witness:
  "truthy (trim (text' (example_state\<lparr>singleAudioUrl := Some (js ''blob:http://localhost:3000/1'')\<rparr>))) \<and>
   axios_post example_env (API example_env @ js ''/tts/single'')
     (Single (build_payload
        (example_state\<lparr>singleAudioUrl := Some (js ''blob:http://localhost:3000/1'')\<rparr>))) =
     Inr [0x49, 0x44, 0x33] \<and>
   handleSingleGenerate example_env
     (example_state\<lparr>singleAudioUrl := Some (js ''blob:http://localhost:3000/1'')\<rparr>) =
     [SetIsGenerating True,
      AxiosPost (js ''http://localhost:8001/api/tts/single'')
        (Single \<lparr>payload_text = js ''Hello world'', payload_speed = 1,
                  payload_model = js ''tts-1'', payload_voice = Some (js ''alloy''),
                  payload_custom_voice_prompt = None\<rparr>),
      CreateObjectURL (Blob [0x49, 0x44, 0x33] (js ''audio/mpeg'')),
      RevokeObjectURL (js ''blob:http://localhost:3000/1''),
      SetSingleAudioUrl (js ''blob:http://localhost:3000/2''),
      AudioLoad, AudioPlay,
      SetIsGenerating False] \<and>
   singleAudioUrl (state_after
     (handleSingleGenerate example_env
        (example_state\<lparr>singleAudioUrl := Some (js ''blob:http://localhost:3000/1'')\<rparr>))
     (example_state\<lparr>singleAudioUrl := Some (js ''blob:http://localhost:3000/1'')\<rparr>)) =
     Some (js ''blob:http://localhost:3000/2'') \<and>
   AudioPlay \<in> set (handleSingleGenerate example_env
     (example_state\<lparr>singleAudioUrl := Some (js ''blob:http://localhost:3000/1'')\<rparr>))"
proof -
  let ?st = "example_state\<lparr>singleAudioUrl := Some (js ''blob:http://localhost:3000/1'')\<rparr>"
  have t: "truthy (trim (text' ?st))"
    by code_simp
  have p: "axios_post example_env (API example_env @ js ''/tts/single'')
      (Single (build_payload ?st)) = Inr [0x49, 0x44, 0x33]"
    by (simp add: example_env_def)
  have ev: "handleSingleGenerate example_env ?st =
     [SetIsGenerating True,
      AxiosPost (js ''http://localhost:8001/api/tts/single'')
        (Single \<lparr>payload_text = js ''Hello world'', payload_speed = 1,
                  payload_model = js ''tts-1'', payload_voice = Some (js ''alloy''),
                  payload_custom_voice_prompt = None\<rparr>),
      CreateObjectURL (Blob [0x49, 0x44, 0x33] (js ''audio/mpeg'')),
      RevokeObjectURL (js ''blob:http://localhost:3000/1''),
      SetSingleAudioUrl (js ''blob:http://localhost:3000/2''),
      AudioLoad, AudioPlay,
      SetIsGenerating False]"
    by code_simp
  have u: "createObjectURL example_env (Blob [0x49, 0x44, 0x33] (js ''audio/mpeg'')) =
      js ''blob:http://localhost:3000/2''"
    by (simp add: example_env_def)
  have m: "audioRef_current example_env"
    by (simp add: example_env_def)
  note s = successful_generation_replaces_audio [OF t p]
  from s have "singleAudioUrl (state_after (handleSingleGenerate example_env ?st) ?st) =
      Some (js ''blob:http://localhost:3000/2'')"
    unfolding u by blast
  moreover from s m have "AudioPlay \<in> set (handleSingleGenerate example_env ?st)"
    by blast
  ultimately show ?thesis
    using t p ev by blast
qed

text \<open>
  Against the claim as stated, that playback is triggered on every successful generation:
  in the world where the audio element is not mounted (the batch tab is open when the
  answer arrives, say), the generation succeeds, the old URL is revoked and the new one
  stored, and no playback is triggered.
\<close>

theorem no_playback_without_audio_element:
  "handleSingleGenerate (example_env\<lparr>audioRef_current := False\<rparr>)
     (example_state\<lparr>singleAudioUrl := Some (js ''blob:http://localhost:3000/1'')\<rparr>) =
     [SetIsGenerating True,
      AxiosPost (js ''http://localhost:8001/api/tts/single'')
        (Single \<lparr>payload_text = js ''Hello world'', payload_speed = 1,
                  payload_model = js ''tts-1'', payload_voice = Some (js ''alloy''),
                  payload_custom_voice_prompt = None\<rparr>),
      CreateObjectURL (Blob [0x49, 0x44, 0x33] (js ''audio/mpeg'')),
      RevokeObjectURL (js ''blob:http://localhost:3000/1''),
      SetSingleAudioUrl (js ''blob:http://localhost:3000/2''),
      SetIsGenerating False] \<and>
   AudioPlay \<notin> set (handleSingleGenerate (example_env\<lparr>audioRef_current := False\<rparr>)
     (example_state\<lparr>singleAudioUrl := Some (js ''blob:http://localhost:3000/1'')\<rparr>))"
  by code_simp

section \<open>Properties of the gateway\<close>

lemma valid_speed_iff:
  "valid_speed r \<longleftrightarrow> (\<exists>x. request_speed r = Finite x \<and> 0.25 \<le> x \<and> x \<le> 4)"
  by (cases "request_speed r") (simp_all add: valid_speed_def)

text \<open>
  C3: every single-generation request whose speed is outside [0.25, 4.0] (0.24 and 4.01
  for example, and also a speed that is no finite number) is rejected with a validation
  error before any outbound call is made: the list of calls to the provider is empty. The
  boundaries are inclusive: a request that is valid otherwise and has a speed from 0.25 to
  4.0, these two included, is not rejected and goes to the provider, in one call that
  carries its speed.
\<close>

theorem synthesizeSingle_speed_validation:
  "((\<forall>x. request_speed r = Finite x \<longrightarrow> x < 0.25 \<or> 4 < x) \<longrightarrow>
      synthesizeSingle g r = (Inl ValidationError, [])) \<and>
   (request_speed r = Finite 0.24 \<or> request_speed r = Finite 4.01 \<longrightarrow>
      synthesizeSingle g r = (Inl ValidationError, [])) \<and>
   (valid_text r \<and> valid_model g r \<and> valid_voice g r \<and>
    request_speed r = Finite y \<and> 0.25 \<le> y \<and> y \<le> 4 \<longrightarrow>
      fst (synthesizeSingle g r) \<noteq> Inl ValidationError \<and>
      snd (synthesizeSingle g r) =
        [\<lparr>call_text = request_text r, call_voice = resolve_voice r,
          call_speed = Finite y, call_model = request_model r\<rparr>])"
proof (intro conjI impI)
  assume "\<forall>x. request_speed r = Finite x \<longrightarrow> x < 0.25 \<or> 4 < x"
  then have "\<not> valid_speed r"
    by (auto simp add: valid_speed_iff)
  then show "synthesizeSingle g r = (Inl ValidationError, [])"
    by (simp add: synthesizeSingle_def)
next
  assume "request_speed r = Finite 0.24 \<or> request_speed r = Finite 4.01"
  then have "\<not> valid_speed r"
    by (auto simp add: valid_speed_def)
  then show "synthesizeSingle g r = (Inl ValidationError, [])"
    by (simp add: synthesizeSingle_def)
next
  assume ok: "valid_text r \<and> valid_model g r \<and> valid_voice g r \<and>
    request_speed r = Finite y \<and> 0.25 \<le> y \<and> y \<le> 4"
  then have "valid_speed r"
    by (auto simp add: valid_speed_iff)
  with ok show "fst (synthesizeSingle g r) \<noteq> Inl ValidationError"
    by (auto simp add: synthesizeSingle_def Let_def split: sum.splits)
  from ok \<open>valid_speed r\<close> show "snd (synthesizeSingle g r) =
        [\<lparr>call_text = request_text r, call_voice = resolve_voice r,
          call_speed = Finite y, call_model = request_model r\<rparr>]"
    by (auto simp add: synthesizeSingle_def Let_def split: sum.splits)
qed

text \<open>
  The example request with the speeds 0.24, 4.01 and \<^verbatim>\<open>NaN\<close>, which are rejected, and
  with 0.25 and 4.0, which reach the provider.
\<close>

theorem synthesizeSingle_speed_validation_witness:
  "synthesizeSingle example_gateway (example_request\<lparr>request_speed := Finite 0.24\<rparr>) =
     (Inl ValidationError, []) \<and>
   synthesizeSingle example_gateway (example_request\<lparr>request_speed := Finite 4.01\<rparr>) =
     (Inl ValidationError, []) \<and>
   synthesizeSingle example_gateway (example_request\<lparr>request_speed := NaN\<rparr>) =
     (Inl ValidationError, []) \<and>
   valid_text example_request \<and> valid_model example_gateway example_request \<and>
   valid_voice example_gateway example_request \<and>
   synthesizeSingle example_gateway (example_request\<lparr>request_speed := Finite 0.25\<rparr>) =
     (Inr ([0x49, 0x44, 0x33], js ''audio/mpeg''),
      [\<lparr>call_text = js ''Hello world'', call_voice = NamedVoice (js ''alloy''),
        call_speed = Finite 0.25, call_model = js ''tts-1''\<rparr>]) \<and>
   synthesizeSingle example_gateway (example_request\<lparr>request_speed := Finite 4\<rparr>) =
     (Inr ([0x49, 0x44, 0x33], js ''audio/mpeg''),
      [\<lparr>call_text = js ''Hello world'', call_voice = NamedVoice (js ''alloy''),
        call_speed = Finite 4, call_model = js ''tts-1''\<rparr>]) \<and>
   snd (synthesizeSingle example_gateway (example_request\<lparr>request_speed := Finite 0.25\<rparr>)) =
     [\<lparr>call_text = js ''Hello world'', call_voice = NamedVoice (js ''alloy''),
       call_speed = Finite 0.25, call_model = js ''tts-1''\<rparr>] \<and>
   snd (synthesizeSingle example_gateway (example_request\<lparr>request_speed := Finite 4\<rparr>)) =
     [\<lparr>call_text = js ''Hello world'', call_voice = NamedVoice (js ''alloy''),
       call_speed = Finite 4, call_model = js ''tts-1''\<rparr>]"
proof -
  let ?low = "example_request\<lparr>request_speed := Finite 0.24\<rparr>"
  let ?high = "example_request\<lparr>request_speed := Finite 4.01\<rparr>"
  let ?nan = "example_request\<lparr>request_speed := NaN\<rparr>"
  let ?lo = "example_request\<lparr>request_speed := Finite 0.25\<rparr>"
  let ?hi = "example_request\<lparr>request_speed := Finite 4\<rparr>"
  have v: "valid_text example_request" "valid_model example_gateway example_request"
    "valid_voice example_gateway example_request"
    by code_simp+
  have vlo: "valid_text ?lo \<and> valid_model example_gateway ?lo \<and> valid_voice example_gateway ?lo"
    by code_simp
  have vhi: "valid_text ?hi \<and> valid_model example_gateway ?hi \<and> valid_voice example_gateway ?hi"
    by code_simp
  have f: "request_text ?lo = js ''Hello world''" "resolve_voice ?lo = NamedVoice (js ''alloy'')"
    "request_model ?lo = js ''tts-1''"
    "request_text ?hi = js ''Hello world''" "resolve_voice ?hi = NamedVoice (js ''alloy'')"
    "request_model ?hi = js ''tts-1''"
    by (simp_all add: example_request_def resolve_voice_def)
  have ev: "synthesizeSingle example_gateway ?lo =
     (Inr ([0x49, 0x44, 0x33], js ''audio/mpeg''),
      [\<lparr>call_text = js ''Hello world'', call_voice = NamedVoice (js ''alloy''),
        call_speed = Finite 0.25, call_model = js ''tts-1''\<rparr>])"
    "synthesizeSingle example_gateway ?hi =
     (Inr ([0x49, 0x44, 0x33], js ''audio/mpeg''),
      [\<lparr>call_text = js ''Hello world'', call_voice = NamedVoice (js ''alloy''),
        call_speed = Finite 4, call_model = js ''tts-1''\<rparr>])"
    by code_simp+
  have 1: "synthesizeSingle example_gateway ?low = (Inl ValidationError, [])"
    using synthesizeSingle_speed_validation [of ?low example_gateway] by simp
  have 2: "synthesizeSingle example_gateway ?high = (Inl ValidationError, [])"
    using synthesizeSingle_speed_validation [of ?high example_gateway] by simp
  have 3: "synthesizeSingle example_gateway ?nan = (Inl ValidationError, [])"
    using synthesizeSingle_speed_validation [of ?nan example_gateway] by simp
  have slo: "request_speed ?lo = Finite 0.25" and shi: "request_speed ?hi = Finite 4"
    by simp_all
  have blo: "(0.25 :: real) \<le> 0.25 \<and> (0.25 :: real) \<le> 4"
    and bhi: "(0.25 :: real) \<le> 4 \<and> (4 :: real) \<le> 4"
    by simp_all
  from synthesizeSingle_speed_validation [of ?lo example_gateway "0.25"] vlo slo blo
  have "snd (synthesizeSingle example_gateway ?lo) =
     [\<lparr>call_text = request_text ?lo, call_voice = resolve_voice ?lo,
       call_speed = Finite 0.25, call_model = request_model ?lo\<rparr>]"
    by blast
  then have 4: "snd (synthesizeSingle example_gateway ?lo) =
     [\<lparr>call_text = js ''Hello world'', call_voice = NamedVoice (js ''alloy''),
       call_speed = Finite 0.25, call_model = js ''tts-1''\<rparr>]"
    unfolding f .
  from synthesizeSingle_speed_validation [of ?hi example_gateway 4] vhi shi bhi
  have "snd (synthesizeSingle example_gateway ?hi) =
     [\<lparr>call_text = request_text ?hi, call_voice = resolve_voice ?hi,
       call_speed = Finite 4, call_model = request_model ?hi\<rparr>]"
    by blast
  then have 5: "snd (synthesizeSingle example_gateway ?hi) =
     [\<lparr>call_text = js ''Hello world'', call_voice = NamedVoice (js ''alloy''),
       call_speed = Finite 4, call_model = js ''tts-1''\<rparr>]"
    unfolding f .
  from 1 2 3 v ev 4 5 show ?thesis
    by (intro conjI) blast+
qed

end
